theory Spec2Isabelle
  imports Main "HOL-Library.Word"
begin

unbundle bit_operations_syntax

section \<open>IP address management (package db)\<close>

text \<open>
  The relational store is modelled as the list of rows of each table. A statement of
  the source is a function on these lists: \<open>UPDATE\<close> maps the rows, \<open>DELETE\<close> filters
  them, \<open>INSERT\<close> appends one, \<open>SELECT COUNT\<close> is the length of the filtered list.
  Statements run one after the other on one connection; a failure of the connection
  itself is not part of the model. Timestamps are natural numbers and \<open>time.Now()\<close> is
  an argument of the operation that reads it.
\<close>

type_synonym uint32 = "32 word"

text \<open>
  The \<open>cidr\<close> column holds a string; the code only ever looks at it through
  \<open>net.ParseCIDR\<close> of Go's standard library, so a network carries what that call
  returns for its column: an address that has a four-byte form (\<open>To4\<close>), as written,
  together with the prefix length of the mask; an IPv6 address that has none, with its
  prefix length; or a parse error. For an IPv4 CIDR the prefix length is at most 32; an
  IPv4-mapped IPv6 CIDR has a four-byte address and a prefix length of up to 128.
\<close>

datatype parsed_cidr =
    ParsedV4 uint32 nat
  | ParsedV6 nat
  | ParseError

record Network =
  ID :: string
  Name :: string
  CIDR :: parsed_cidr
  Gateway :: string
  DNS1 :: string
  VlanID :: int
  IsPublic :: bool
  CreatedAt :: nat

text \<open>A row of \<open>ip_leases(ip PK, instance_name NULL, allocated_at NULL, network_id)\<close>.\<close>

record Lease =
  ip :: string
  instance_name :: "string option"
  allocated_at :: "nat option"
  network_id :: string

record Store =
  networks :: "Network list"
  ip_leases :: "Lease list"

datatype error =
    ErrParseCIDR
  | ErrIPv6NotSupported
  | ErrPanic
  | ErrPoolFull
  | ErrNoIPAvailable
  | ErrActiveAllocations nat
  | ErrNoRows
  | ErrInstanceNotFound string
  | ErrDuplicateKey
  | ErrCheckViolation
  | ErrProvider string

subsection \<open>Addresses and ranges\<close>

text \<open>
  \<open>IntToIP\<close> writes the four bytes of the value, most significant first, and prints
  them with \<open>net.IP.String\<close>: dotted decimal, every byte printed by the library's
  \<open>ubtoa\<close> without leading zeros.
\<close>

definition digit :: "nat \<Rightarrow> char" where
  "digit v = ''0123456789'' ! v"

definition ubtoa :: "nat \<Rightarrow> string" where
  "ubtoa v =
     (if v < 10 then [digit v]
      else if v < 100 then [digit (v div 10), digit (v mod 10)]
      else [digit (v div 100), digit ((v div 10) mod 10), digit (v mod 10)])"

definition byteAt :: "uint32 \<Rightarrow> nat \<Rightarrow> nat" where
  "byteAt nn k = unat (drop_bit (8 * k) nn AND 0xFF)"

definition IntToIP :: "uint32 \<Rightarrow> string" where
  "IntToIP nn =
     ubtoa (byteAt nn 3) @ ''.'' @ ubtoa (byteAt nn 2) @ ''.'' @
     ubtoa (byteAt nn 1) @ ''.'' @ ubtoa (byteAt nn 0)"

text \<open>
  \<open>net.CIDRMask(ones, 32)\<close> read as a big-endian \<open>uint32\<close>: the \<open>ones\<close> high bits set.
  For \<open>ones > 32\<close> the library returns nil and reading four bytes of it panics.
\<close>

definition CIDRMask :: "nat \<Rightarrow> uint32" where
  "CIDRMask ones = NOT (mask (32 - ones))"

text \<open>
  \<open>CidrToRange\<close>: \<open>start\<close> is the address as it is written in the CIDR (\<open>ip\<close>, the
  first result of \<open>ParseCIDR\<close>, not \<open>ipnet.IP\<close>); the end is the broadcast address of
  the network.
\<close>

definition CidrToRange :: "parsed_cidr \<Rightarrow> error + (uint32 \<times> uint32)" where
  "CidrToRange cidr =
     (case cidr of
        ParseError \<Rightarrow> Inl ErrParseCIDR
      | ParsedV6 ones \<Rightarrow> Inl ErrIPv6NotSupported
      | ParsedV4 ip4 ones \<Rightarrow>
          if 32 < ones then Inl ErrPanic
          else
            (let msk = CIDRMask ones;
                 start = ip4;
                 endIP = (start AND msk) OR (msk XOR 0xffffffff)
             in Inr (start, endIP)))"

subsection \<open>AllocateIP\<close>

text \<open>
  \<open>SELECT ip FROM ip_leases WHERE network_id = $1 AND instance_name IS NOT NULL\<close>, the
  rows that fill \<open>usedMap\<close>.
\<close>

definition usedIPs :: "Lease list \<Rightarrow> string \<Rightarrow> string list" where
  "usedIPs leases netId =
     map ip (filter (\<lambda>l. network_id l = netId \<and> instance_name l \<noteq> None) leases)"

text \<open>\<open>SELECT EXISTS(SELECT 1 FROM ip_leases WHERE ip = $1)\<close>.\<close>

definition existsGlobal :: "Lease list \<Rightarrow> string \<Rightarrow> bool" where
  "existsGlobal leases ipStr = (ipStr \<in> set (map ip leases))"

text \<open>
  \<open>UPDATE ip_leases SET instance_name = $1, allocated_at = $2, network_id = $3
  WHERE ip = $4 AND instance_name IS NULL\<close>: the rows it matches and what it does to
  each row.
\<close>

definition claimable :: "string \<Rightarrow> Lease \<Rightarrow> bool" where
  "claimable ipStr l = (ip l = ipStr \<and> instance_name l = None)"

definition claimRow :: "string \<Rightarrow> string \<Rightarrow> nat \<Rightarrow> string \<Rightarrow> Lease \<Rightarrow> Lease" where
  "claimRow ipStr instanceName now netId l =
     (if claimable ipStr l
      then l\<lparr>instance_name := Some instanceName, allocated_at := Some now,
             network_id := netId\<rparr>
      else l)"

text \<open>
  The transaction opened for a candidate address. \<open>None\<close> is the rollback followed by
  \<open>continue\<close> (the update matched no row); \<open>Some\<close> is the committed lease table. The
  insert is only tried for an address that was just found to have no row, so it cannot
  violate the key.
\<close>

definition tryReserve ::
    "Lease list \<Rightarrow> string \<Rightarrow> string \<Rightarrow> nat \<Rightarrow> string \<Rightarrow> Lease list option" where
  "tryReserve leases ipStr instanceName now netId =
     (if existsGlobal leases ipStr then
        (let rowsAff = length (filter (claimable ipStr) leases)
         in if rowsAff = 0 then None
            else Some (map (claimRow ipStr instanceName now netId) leases))
      else
        Some (leases @ [\<lparr>ip = ipStr, instance_name = Some instanceName,
                          allocated_at = Some now, network_id = netId\<rparr>]))"

text \<open>
  The loop \<open>for i := currentIP; i < endIP; i++\<close>. The counter is a \<open>uint32\<close>; it cannot
  wrap inside the loop because \<open>i < endIP\<close> holds before each increment.
\<close>

function scanRange ::
    "Lease list \<Rightarrow> string list \<Rightarrow> string \<Rightarrow> string \<Rightarrow> nat \<Rightarrow> uint32 \<Rightarrow> uint32
     \<Rightarrow> error + (string \<times> Lease list)" where
  "scanRange leases usedMap netId instanceName now i endIP =
     (if i < endIP then
        (if IntToIP i \<notin> set usedMap then
           (case tryReserve leases (IntToIP i) instanceName now netId of
              Some leases' \<Rightarrow> Inr (IntToIP i, leases')
            | None \<Rightarrow> scanRange leases usedMap netId instanceName now (i + 1) endIP)
         else scanRange leases usedMap netId instanceName now (i + 1) endIP)
      else Inl ErrPoolFull)"
  by pat_completeness auto

lemma unat_succ_below: "i < (endIP :: uint32) \<Longrightarrow> unat (i + 1) = Suc (unat i)"
proof -
  assume "i < endIP"
  then have "unat i < unat endIP" by (simp add: word_less_nat_alt)
  moreover have "unat endIP < 2 ^ 32" using unsigned_less [of endIP] by simp
  ultimately have "unat i + 1 < 2 ^ 32" by simp
  then show ?thesis by (simp add: unat_word_ariths)
qed

termination scanRange
  by (relation "measure (\<lambda>(leases, usedMap, netId, instanceName, now, i, endIP).
                   unat endIP - unat i)")
     (auto simp: unat_succ_below word_less_nat_alt)

declare scanRange.simps [simp del]

definition tryAllocateInNetwork ::
    "Lease list \<Rightarrow> Network \<Rightarrow> string \<Rightarrow> nat \<Rightarrow> error + (string \<times> Lease list)" where
  "tryAllocateInNetwork leases netDef instanceName now =
     (case CidrToRange (CIDR netDef) of
        Inl err \<Rightarrow> Inl err
      | Inr (startIP, endIP) \<Rightarrow>
          scanRange leases (usedIPs leases (ID netDef)) (ID netDef) instanceName now
            (startIP + 2) endIP)"

text \<open>
  \<open>SELECT ... FROM networks WHERE is_public = $1 ORDER BY created_at ASC\<close>; rows with
  equal \<open>created_at\<close> come in table order.
\<close>

definition getAvailableNetworks :: "Store \<Rightarrow> bool \<Rightarrow> Network list" where
  "getAvailableNetworks s isPro =
     sort_key CreatedAt (filter (\<lambda>n. IsPublic n = isPro) (networks s))"

text \<open>
  The loop over the candidate networks: the first pool that yields an address wins, and
  an error a pool returns is dropped for the next pool. A panic is not an error value
  the loop sees: it unwinds \<open>tryAllocateInNetwork\<close> and \<open>AllocateIP\<close>, which then does not
  return. \<open>ErrPanic\<close> marks that outcome and ends the loop.
\<close>

fun allocateFrom ::
    "Lease list \<Rightarrow> Network list \<Rightarrow> string \<Rightarrow> nat \<Rightarrow> error + (string \<times> Lease list)" where
  "allocateFrom leases [] instanceName now = Inl ErrNoIPAvailable"
| "allocateFrom leases (n # ns) instanceName now =
     (case tryAllocateInNetwork leases n instanceName now of
        Inr r \<Rightarrow> Inr r
      | Inl err \<Rightarrow>
          if err = ErrPanic then Inl ErrPanic
          else allocateFrom leases ns instanceName now)"

definition AllocateIP :: "Store \<Rightarrow> string \<Rightarrow> nat \<Rightarrow> (error + string) \<times> Store" where
  "AllocateIP s instanceName now =
     (let isPro = False
      in case allocateFrom (ip_leases s) (getAvailableNetworks s isPro) instanceName now of
           Inr (ipStr, leases') \<Rightarrow> (Inr ipStr, s\<lparr>ip_leases := leases'\<rparr>)
         | Inl err \<Rightarrow> (Inl err, s))"

text \<open>
  A store used to run the operations on concrete rows: one private pool
  \<open>10.0.0.0/29\<close> and two leases in it, \<open>10.0.0.2\<close> owned by \<open>web1\<close> and \<open>10.0.0.3\<close>
  pre-populated without an owner.
\<close>

definition pool29 :: Network where
  "pool29 = \<lparr>ID = ''1'', Name = ''private'', CIDR = ParsedV4 0x0A000000 29,
              Gateway = ''10.0.0.1'', DNS1 = ''1.1.1.1'', VlanID = 0,
              IsPublic = False, CreatedAt = 100\<rparr>"

definition twoLeases :: Store where
  "twoLeases = \<lparr>networks = [pool29],
     ip_leases =
       [\<lparr>ip = ''10.0.0.2'', instance_name = Some ''web1'', allocated_at = Some 120,
         network_id = ''1''\<rparr>,
        \<lparr>ip = ''10.0.0.3'', instance_name = None, allocated_at = None,
         network_id = ''1''\<rparr>]\<rparr>"

subsection \<open>ReleaseIP\<close>

text \<open>
  \<open>UPDATE ip_leases SET instance_name = NULL, allocated_at = NULL WHERE instance_name = $1\<close>.
  In SQL a \<open>NULL\<close> owner never equals the argument.
\<close>

definition releaseRow :: "string \<Rightarrow> Lease \<Rightarrow> Lease" where
  "releaseRow instanceName l =
     (if instance_name l = Some instanceName
      then l\<lparr>instance_name := None, allocated_at := None\<rparr>
      else l)"

definition ReleaseIP :: "Store \<Rightarrow> string \<Rightarrow> (error + unit) \<times> Store" where
  "ReleaseIP s instanceName =
     (Inr (), s\<lparr>ip_leases := map (releaseRow instanceName) (ip_leases s)\<rparr>)"

subsection \<open>GetInstanceIP\<close>

text \<open>
  \<open>SELECT ip FROM ip_leases WHERE instance_name = $1\<close> read with \<open>QueryRow\<close>: the first
  matching row is scanned; \<open>sql.ErrNoRows\<close> is turned into the empty string and no
  error.
\<close>

definition GetInstanceIP :: "Store \<Rightarrow> string \<Rightarrow> error + string" where
  "GetInstanceIP s instanceName =
     (case filter (\<lambda>l. instance_name l = Some instanceName) (ip_leases s) of
        [] \<Rightarrow> Inr []
      | l # rest \<Rightarrow> Inr (ip l))"

subsection \<open>DeleteNetwork\<close>

text \<open>
  The count of owned leases guards the two deletes. When the last delete matches no
  network row the function returns \<open>sql.ErrNoRows\<close>, after the leases are gone.
\<close>

definition DeleteNetwork :: "Store \<Rightarrow> string \<Rightarrow> (error + unit) \<times> Store" where
  "DeleteNetwork s netId =
     (let count = length (filter (\<lambda>l. network_id l = netId \<and> instance_name l \<noteq> None)
                            (ip_leases s))
      in if 0 < count then (Inl (ErrActiveAllocations count), s)
         else
           (let s1 = s\<lparr>ip_leases := filter (\<lambda>l. network_id l \<noteq> netId) (ip_leases s)\<rparr>;
                rows = length (filter (\<lambda>n. ID n = netId) (networks s1));
                s2 = s1\<lparr>networks := filter (\<lambda>n. ID n \<noteq> netId) (networks s1)\<rparr>
            in if rows = 0 then (Inl ErrNoRows, s2) else (Inr (), s2)))"

subsection \<open>GetNetworksWithStats\<close>

text \<open>
  \<open>UsagePercent\<close> is a \<open>float64\<close>. Its value is kept as the expression that computes
  it (conversions of integers, one division, one multiplication); the rounding of the
  floating-point operations is not modelled.
\<close>

datatype float64 =
    FloatOfInt int
  | FDiv float64 float64
  | FMul float64 float64

record NetworkStats =
  NetworkOf :: Network
  TotalIPs :: int
  UsedIPs :: int
  UsagePercent :: float64

text \<open>
  \<open>n.TotalIPs = 1 << (32 - ones)\<close>, then three addresses are taken off when more than
  two are there. \<open>ones\<close> comes from the mask of the parsed network, so it is at most 32
  for an IPv4 CIDR and can reach 128 for an IPv6 one; Go panics on a negative shift
  count. An unparseable CIDR leaves \<open>TotalIPs\<close> at its zero value.
\<close>

definition shiftedTotal :: "nat \<Rightarrow> error + int" where
  "shiftedTotal ones =
     (if 32 < ones then Inl ErrPanic
      else
        (let tot = (2 :: int) ^ (32 - ones)
         in if 2 < tot then Inr (tot - 3) else Inr tot))"

definition totalIPs :: "parsed_cidr \<Rightarrow> error + int" where
  "totalIPs cidr =
     (case cidr of
        ParseError \<Rightarrow> Inr 0
      | ParsedV4 ip4 ones \<Rightarrow> shiftedTotal ones
      | ParsedV6 ones \<Rightarrow> shiftedTotal ones)"

text \<open>
  \<open>SELECT COUNT(*) FROM ip_leases WHERE network_id = $1 AND instance_name IS NOT NULL\<close>.
\<close>

definition countUsed :: "Lease list \<Rightarrow> string \<Rightarrow> int" where
  "countUsed leases netId =
     int (length (filter (\<lambda>l. network_id l = netId \<and> instance_name l \<noteq> None) leases))"

definition usagePercent :: "int \<Rightarrow> int \<Rightarrow> float64" where
  "usagePercent used tot =
     (if 0 < tot then FMul (FDiv (FloatOfInt used) (FloatOfInt tot)) (FloatOfInt 100)
      else FloatOfInt 0)"

definition networkStats :: "Lease list \<Rightarrow> Network \<Rightarrow> error + NetworkStats" where
  "networkStats leases n =
     (case totalIPs (CIDR n) of
        Inl err \<Rightarrow> Inl err
      | Inr tot \<Rightarrow>
          (let used = countUsed leases (ID n)
           in Inr \<lparr>NetworkOf = n, TotalIPs = tot, UsedIPs = used,
                   UsagePercent = usagePercent used tot\<rparr>))"

fun statsLoop :: "Lease list \<Rightarrow> Network list \<Rightarrow> error + NetworkStats list" where
  "statsLoop leases [] = Inr []"
| "statsLoop leases (n # ns) =
     (case networkStats leases n of
        Inl err \<Rightarrow> Inl err
      | Inr st \<Rightarrow>
          (case statsLoop leases ns of
             Inl err \<Rightarrow> Inl err
           | Inr sts \<Rightarrow> Inr (st # sts)))"

definition GetNetworksWithStats :: "Store \<Rightarrow> error + NetworkStats list" where
  "GetNetworksWithStats s = statsLoop (ip_leases s) (sort_key CreatedAt (networks s))"

text \<open>An address is owned when a lease row for it has a non-null owner.\<close>

definition owned :: "Lease list \<Rightarrow> string \<Rightarrow> bool" where
  "owned leases a = list_ex (\<lambda>l. ip l = a \<and> instance_name l \<noteq> None) leases"

text \<open>
  What \<open>ParseCIDR\<close> guarantees about the prefix length of an IPv4 network, and what an
  IPv6 network needs for the shift in \<open>GetNetworksWithStats\<close> not to panic.
\<close>

definition prefixOK :: "parsed_cidr \<Rightarrow> bool" where
  "prefixOK cidr =
     (case cidr of ParseError \<Rightarrow> True | ParsedV4 ip4 ones \<Rightarrow> ones \<le> 32
      | ParsedV6 ones \<Rightarrow> ones \<le> 32)"

text \<open>
  What a statistics entry has to say about its network: the total for an IPv4 prefix
  length \<open>p\<close>, the number of owned leases of the network, and the usage expression.
\<close>

definition statsRight :: "Lease list \<Rightarrow> NetworkStats \<Rightarrow> bool" where
  "statsRight leases st =
     ((\<forall>a p. CIDR (NetworkOf st) = ParsedV4 a p \<longrightarrow>
          TotalIPs st = (if p \<le> 30 then 2 ^ (32 - p) - 3 else 2 ^ (32 - p)))
      \<and> UsedIPs st
          = int (length (filter (\<lambda>l. network_id l = ID (NetworkOf st) \<and> instance_name l \<noteq> None)
                           leases))
      \<and> (0 < TotalIPs st \<longrightarrow>
          UsagePercent st
            = FMul (FDiv (FloatOfInt (UsedIPs st)) (FloatOfInt (TotalIPs st))) (FloatOfInt 100)))"

text \<open>Two small pools, a \<open>/32\<close> and a \<open>/31\<close>, without leases.\<close>

definition host32 :: Network where
  "host32 = \<lparr>ID = ''7'', Name = ''host'', CIDR = ParsedV4 0x0A000001 32,
              Gateway = [], DNS1 = [], VlanID = 0, IsPublic = False, CreatedAt = 10\<rparr>"

definition link31 :: Network where
  "link31 = \<lparr>ID = ''8'', Name = ''link'', CIDR = ParsedV4 0x0A000100 31,
              Gateway = [], DNS1 = [], VlanID = 0, IsPublic = False, CreatedAt = 20\<rparr>"

definition smallPools :: Store where
  "smallPools = \<lparr>networks = [host32, link31], ip_leases = []\<rparr>"

text \<open>A store whose only lease is pre-populated and has no owner.\<close>

definition reservedOnly :: Store where
  "reservedOnly = \<lparr>networks = [pool29],
     ip_leases = [\<lparr>ip = ''10.0.0.3'', instance_name = None, allocated_at = None,
                   network_id = ''1''\<rparr>]\<rparr>"

text \<open>
  The addresses \<open>tryAllocateInNetwork\<close> scans in a pool: the values the loop counter
  takes, from \<open>startIP + 2\<close> (in 32-bit arithmetic, \<open>startIP\<close> being the address as
  written) up to but excluding \<open>endIP\<close>. A pool whose CIDR gives no range has none.
\<close>

definition scannedRange :: "Network \<Rightarrow> uint32 set" where
  "scannedRange n =
     (case CidrToRange (CIDR n) of
        Inl err \<Rightarrow> {}
      | Inr (startIP, endIP) \<Rightarrow> {j. startIP + 2 \<le> j \<and> j < endIP})"

text \<open>
  The usable addresses of a pool in the spec's words, to compare the scan with: "the
  usable address range as \<open>[network+2, broadcast)\<close>, reserving the network and gateway
  addresses". The network address is the written address with the host bits cleared,
  the broadcast address has them all set, and the interval is one of numbers. Only an
  IPv4 pool has such addresses.
\<close>

definition networkAddress :: "uint32 \<Rightarrow> nat \<Rightarrow> uint32" where
  "networkAddress a w = a AND CIDRMask w"

definition broadcastAddress :: "uint32 \<Rightarrow> nat \<Rightarrow> uint32" where
  "broadcastAddress a w = networkAddress a w OR NOT (CIDRMask w)"

definition usableAddresses :: "Network \<Rightarrow> uint32 set" where
  "usableAddresses n =
     (case CIDR n of
        ParsedV4 a w \<Rightarrow>
          if w \<le> 32
          then {j. unat (networkAddress a w) + 2 \<le> unat j
                   \<and> unat j < unat (broadcastAddress a w)}
          else {}
      | ParsedV6 w \<Rightarrow> {}
      | ParseError \<Rightarrow> {})"

text \<open>
  A pool whose CIDR is an IPv4 one written with its network address (no host bit set),
  and whose network address is not one of the last two of the address space.
\<close>

definition networkAddressed :: "Network \<Rightarrow> bool" where
  "networkAddressed n =
     (case CIDR n of
        ParsedV4 a w \<Rightarrow> w \<le> 32 \<and> networkAddress a w = a \<and> unat a + 2 < 2 ^ 32
      | ParsedV6 w \<Rightarrow> False
      | ParseError \<Rightarrow> False)"

text \<open>
  The pool \<open>10.0.0.0/29\<close> marked public, in a store without leases; and a private pool
  written \<open>10.0.0.3/29\<close>, the same network, in a store where \<open>10.0.0.5\<close> and \<open>10.0.0.6\<close>
  are owned.
\<close>

definition publicStore :: Store where
  "publicStore = \<lparr>networks = [pool29\<lparr>IsPublic := True\<rparr>], ip_leases = []\<rparr>"

definition hostBits29 :: Network where
  "hostBits29 = \<lparr>ID = ''2'', Name = ''written with host bits'', CIDR = ParsedV4 0x0A000003 29,
                  Gateway = ''10.0.0.1'', DNS1 = [], VlanID = 0, IsPublic = False,
                  CreatedAt = 100\<rparr>"

definition hostBitsStore :: Store where
  "hostBitsStore = \<lparr>networks = [hostBits29],
     ip_leases =
       [\<lparr>ip = ''10.0.0.5'', instance_name = Some ''a'', allocated_at = Some 1,
         network_id = ''2''\<rparr>,
        \<lparr>ip = ''10.0.0.6'', instance_name = Some ''b'', allocated_at = Some 2,
         network_id = ''2''\<rparr>]\<rparr>"

text \<open>
  Calls of \<open>AllocateIP\<close> made one after the other, each on the store the previous one
  left: the instance name and the clock reading of every call go in, the results come
  out in order.
\<close>

fun allocateSeq :: "Store \<Rightarrow> (string \<times> nat) list \<Rightarrow> (error + string) list" where
  "allocateSeq s [] = []"
| "allocateSeq s ((instanceName, now) # calls) =
     fst (AllocateIP s instanceName now) # allocateSeq (snd (AllocateIP s instanceName now)) calls"

text \<open>A private pool written \<open>255.255.255.254/31\<close>, and a store with nothing else.\<close>

definition top31 :: Network where
  "top31 = \<lparr>ID = ''9'', Name = ''top'', CIDR = ParsedV4 0xFFFFFFFE 31,
             Gateway = [], DNS1 = [], VlanID = 0, IsPublic = False, CreatedAt = 100\<rparr>"

definition topStore :: Store where
  "topStore = \<lparr>networks = [top31], ip_leases = []\<rparr>"

text \<open>The pool \<open>10.0.0.0/29\<close> with all of \<open>.2\<close> to \<open>.6\<close> owned.\<close>

definition fullLeases :: "Lease list" where
  "fullLeases =
     [\<lparr>ip = ''10.0.0.2'', instance_name = Some ''a'', allocated_at = Some 1, network_id = ''1''\<rparr>,
      \<lparr>ip = ''10.0.0.3'', instance_name = Some ''b'', allocated_at = Some 2, network_id = ''1''\<rparr>,
      \<lparr>ip = ''10.0.0.4'', instance_name = Some ''c'', allocated_at = Some 3, network_id = ''1''\<rparr>,
      \<lparr>ip = ''10.0.0.5'', instance_name = Some ''d'', allocated_at = Some 4, network_id = ''1''\<rparr>,
      \<lparr>ip = ''10.0.0.6'', instance_name = Some ''e'', allocated_at = Some 5, network_id = ''1''\<rparr>]"

definition fullStore :: Store where
  "fullStore = \<lparr>networks = [pool29], ip_leases = fullLeases\<rparr>"
text \<open>The store with the pool \<open>10.0.0.0/29\<close> and no lease.\<close>

definition emptyPool :: Store where
  "emptyPool = \<lparr>networks = [pool29], ip_leases = []\<rparr>"

section \<open>Event bus (package events)\<close>

record Event =
  Event_Type :: string
  Event_JobID :: string
  Event_Target :: string
  Event_Payload :: string
  Event_Timestamp :: int

text \<open>
  A buffered channel is its capacity and the queue of values sent and not yet received.
  A plain send on a full buffer blocks the sender; \<open>select\<close> with a \<open>default\<close> case takes
  the default branch instead.
\<close>

record 'a chan =
  capacity :: nat
  buffer :: "'a list"

datatype 'a send = Sent "'a chan" | WouldBlock

definition chanSend :: "'a chan \<Rightarrow> 'a \<Rightarrow> 'a send" where
  "chanSend c x =
     (if length (buffer c) < capacity c then Sent (c\<lparr>buffer := buffer c @ [x]\<rparr>)
      else WouldBlock)"

text \<open>\<open>var GlobalBus = make(chan Event, 1000)\<close>.\<close>

definition GlobalBus :: "Event chan" where
  "GlobalBus = \<lparr>capacity = 1000, buffer = []\<rparr>"

text \<open>
  \<open>Publish\<close>: \<open>select { case GlobalBus <- evt: default: }\<close>. The function takes the bus
  as it is and returns the bus it leaves.
\<close>

definition Publish :: "Event chan \<Rightarrow> Event \<Rightarrow> Event chan" where
  "Publish bus evt =
     (case chanSend bus evt of
        Sent bus' \<Rightarrow> bus'
      | WouldBlock \<Rightarrow> bus)"

text \<open>The states the bus can be in: what \<open>Publish\<close> and receivers make of \<open>GlobalBus\<close>.\<close>

definition busState :: "Event chan \<Rightarrow> bool" where
  "busState bus = (capacity bus = 1000 \<and> length (buffer bus) \<le> 1000)"

text \<open>An event, and a bus that holds a thousand of it.\<close>

definition jobDone :: Event where
  "jobDone = \<lparr>Event_Type = ''job_update'', Event_JobID = ''j1'', Event_Target = ''web1'',
               Event_Payload = ''{}'', Event_Timestamp = 1700000000\<rparr>"

definition fullBus :: "Event chan" where
  "fullBus = \<lparr>capacity = 1000, buffer = replicate 1000 jobDone\<rparr>"

section \<open>Job store\<close>

text \<open>
  A row of \<open>jobs\<close> as migration 1 creates the table: \<open>id\<close>, \<open>type\<close>, \<open>target\<close>, \<open>payload\<close>,
  \<open>status\<close>, \<open>error\<close>, \<open>created_at\<close>, \<open>started_at\<close>, \<open>finished_at\<close>, \<open>attempt_count\<close>,
  \<open>requested_by\<close>. Times are in seconds.
\<close>

datatype job_status = PENDING | IN_PROGRESS | COMPLETED | FAILED

record JobRow =
  job_id :: string
  job_type :: string
  job_target :: string
  job_payload :: string
  job_status :: job_status
  job_error :: "string option"
  job_created_at :: nat
  job_started_at :: "nat option"
  job_finished_at :: "nat option"
  job_attempt_count :: int
  job_requested_by :: "string option"

text \<open>
  Modelled from the spec: the condition under which \<open>RecoverStuckJobs\<close>, whose body is
  not among the sources, resets a job. The spec: a job "that has been IN_PROGRESS longer
  than \<open>staleAfter\<close>"; \<open>started_at\<close> is set when a job becomes \<open>IN_PROGRESS\<close>, so the job
  is stuck at \<open>now\<close> when it is \<open>IN_PROGRESS\<close> and was started more than \<open>staleAfter\<close>
  ago.
\<close>

definition stuck :: "nat \<Rightarrow> nat \<Rightarrow> JobRow \<Rightarrow> bool" where
  "stuck now staleAfter j =
     (job_status j = IN_PROGRESS
      \<and> (case job_started_at j of None \<Rightarrow> False | Some t \<Rightarrow> t + staleAfter < now))"

text \<open>
  Modelled from the spec: what \<open>RecoverStuckJobs\<close> does to one row, "back to PENDING
  with attempt_count+1".
\<close>

definition recoverRow :: "nat \<Rightarrow> nat \<Rightarrow> JobRow \<Rightarrow> JobRow" where
  "recoverRow now staleAfter j =
     (if stuck now staleAfter j
      then j\<lparr>job_status := PENDING, job_attempt_count := job_attempt_count j + 1\<rparr>
      else j)"

text \<open>
  Modelled from the spec: \<open>RecoverStuckJobs\<close> is a method of the job repository, which
  is not among the sources; only its call in \<open>RunMaintenance\<close>, with five minutes, is.
  The spec: "resets any job that has been IN_PROGRESS longer than \<open>staleAfter\<close> back to
  PENDING with attempt_count+1, without mutating finished jobs". The call returns the
  number of jobs it reset, which \<open>RunMaintenance\<close> logs.
\<close>

definition RecoverStuckJobs :: "JobRow list \<Rightarrow> nat \<Rightarrow> nat \<Rightarrow> (error + nat) \<times> JobRow list" where
  "RecoverStuckJobs jobs now staleAfter =
     (Inr (length (filter (stuck now staleAfter) jobs)),
      map (recoverRow now staleAfter) jobs)"

text \<open>
  Three jobs read at time 1000: one in progress since 400 (ten minutes), one in progress
  since 940 (one minute), one completed.
\<close>

definition oldJob :: JobRow where
  "oldJob = \<lparr>job_id = ''j1'', job_type = ''create_instance'', job_target = ''web1'',
              job_payload = ''{}'', job_status = IN_PROGRESS, job_error = None,
              job_created_at = 390, job_started_at = Some 400, job_finished_at = None,
              job_attempt_count = 0, job_requested_by = None\<rparr>"

definition youngJob :: JobRow where
  "youngJob = \<lparr>job_id = ''j2'', job_type = ''state_change'', job_target = ''web2'',
                job_payload = ''{}'', job_status = IN_PROGRESS, job_error = None,
                job_created_at = 930, job_started_at = Some 940, job_finished_at = None,
                job_attempt_count = 0, job_requested_by = None\<rparr>"

definition doneJob :: JobRow where
  "doneJob = \<lparr>job_id = ''j3'', job_type = ''delete_instance'', job_target = ''web3'',
               job_payload = ''{}'', job_status = COMPLETED, job_error = None,
               job_created_at = 100, job_started_at = Some 110, job_finished_at = Some 150,
               job_attempt_count = 0, job_requested_by = None\<rparr>"

section \<open>The create-instance endpoint (package main)\<close>

record CreateInstanceRequest =
  Req_Name :: string
  Req_Image :: string
  Req_Limits :: "string \<rightharpoonup> string"
  Req_UserData :: string

text \<open>The fields of \<open>db.Job\<close> the handler fills in.\<close>

record Job =
  Job_ID :: string
  Job_Type :: string
  Job_Target :: string
  Job_Payload :: string

text \<open>
  What the handler calls and the sources do not contain is an argument of the model:
  the two parsers of \<open>utils\<close>, \<open>CheckGlobalQuota\<close> of the provider client (\<open>Some\<close> is the
  error it returns), the identifier \<open>uuid.New\<close> draws for this request,
  \<open>json.Marshal\<close> of the request, the constant \<open>types.JobTypeCreateInstance\<close>,
  \<open>db.CreateJob\<close> on a job store of any kind (its error, if any, and the store it
  leaves), and \<open>worker.DispatchJob\<close> on the dispatch queue.
\<close>

record ('js, 'q) Deps =
  ParseCpuCores :: "string \<Rightarrow> int"
  ParseMemoryToMB :: "string \<Rightarrow> int"
  CheckGlobalQuota :: "int \<Rightarrow> int \<Rightarrow> string option"
  NewUUID :: string
  MarshalRequest :: "CreateInstanceRequest \<Rightarrow> string"
  JobTypeCreateInstance :: string
  CreateJob :: "Job \<Rightarrow> 'js \<Rightarrow> string option \<times> 'js"
  DispatchJob :: "string \<Rightarrow> 'q \<Rightarrow> 'q"

record ('js, 'q) Server =
  JobStore :: 'js
  DispatchQueue :: 'q

text \<open>\<open>c.JSON(code, gin.H{...})\<close>: the status code and the fields of the JSON object.\<close>

record Response =
  StatusCode :: nat
  Body :: "(string \<times> string) list"

definition reqCpu :: "('js, 'q) Deps \<Rightarrow> CreateInstanceRequest \<Rightarrow> int" where
  "reqCpu d req =
     (case Req_Limits req ''limits.cpu'' of
        Some val \<Rightarrow> ParseCpuCores d val
      | None \<Rightarrow> 1)"

definition reqRam :: "('js, 'q) Deps \<Rightarrow> CreateInstanceRequest \<Rightarrow> int" where
  "reqRam d req =
     (case Req_Limits req ''limits.memory'' of
        Some val \<Rightarrow> ParseMemoryToMB d val
      | None \<Rightarrow> 512)"

definition newJob :: "('js, 'q) Deps \<Rightarrow> CreateInstanceRequest \<Rightarrow> Job" where
  "newJob d req =
     \<lparr>Job_ID = NewUUID d, Job_Type = JobTypeCreateInstance d, Job_Target = Req_Name req,
      Job_Payload = MarshalRequest d req\<rparr>"

text \<open>
  The handler of \<open>POST /instances\<close>. \<open>bound\<close> is the outcome of \<open>c.ShouldBindJSON\<close>:
  \<open>None\<close> when the body does not bind. The message of the 400 answer is written with
  its UTF-8 bytes.
\<close>

definition postInstances ::
    "('js, 'q) Deps \<Rightarrow> CreateInstanceRequest option \<Rightarrow> ('js, 'q) Server
     \<Rightarrow> Response \<times> ('js, 'q) Server" where
  "postInstances d bound srv =
     (case bound of
        None \<Rightarrow>
          (\<lparr>StatusCode = 400,
            Body = [(''error'', ''JSON inv'' @ [CHR 0xC3, CHR 0xA1] @ ''lido. Campos obrigat''
                      @ [CHR 0xC3, CHR 0xB3] @ ''rios: name, image'')]\<rparr>, srv)
      | Some req \<Rightarrow>
          (case CheckGlobalQuota d (reqCpu d req) (reqRam d req) of
             Some err \<Rightarrow>
               (\<lparr>StatusCode = 409,
                 Body = [(''error'', ''Quota Exceeded''), (''details'', err)]\<rparr>, srv)
           | None \<Rightarrow>
               (let jobID = NewUUID d;
                    job = newJob d req;
                    (res, store') = CreateJob d job (JobStore srv)
                in case res of
                     Some err \<Rightarrow>
                       (\<lparr>StatusCode = 500, Body = [(''error'', err)]\<rparr>,
                        srv\<lparr>JobStore := store'\<rparr>)
                   | None \<Rightarrow>
                       (\<lparr>StatusCode = 202,
                         Body = [(''job_id'', jobID), (''status'', ''accepted'')]\<rparr>,
                        srv\<lparr>JobStore := store',
                            DispatchQueue := DispatchJob d jobID (DispatchQueue srv)\<rparr>))))"

text \<open>
  A deployment to run the handler on: the job store is the list of jobs, the dispatch
  queue the list of identifiers, the quota has room for at most four CPUs per request.
\<close>

definition listDeps :: "(Job list, string list) Deps" where
  "listDeps =
     \<lparr>ParseCpuCores = (\<lambda>v. if v = ''8'' then 8 else 2),
      ParseMemoryToMB = (\<lambda>v. 1024),
      CheckGlobalQuota = (\<lambda>cpu ram. if 4 < cpu then Some ''cpu limit reached'' else None),
      NewUUID = ''6f1c'',
      MarshalRequest = (\<lambda>r. ''{}''),
      JobTypeCreateInstance = ''create_instance'',
      CreateJob = (\<lambda>j js. (None, js @ [j])),
      DispatchJob = (\<lambda>i q. q @ [i])\<rparr>"

definition bigRequest :: CreateInstanceRequest where
  "bigRequest = \<lparr>Req_Name = ''big'', Req_Image = ''ubuntu/22.04'',
                  Req_Limits = [''limits.cpu'' \<mapsto> ''8''], Req_UserData = []\<rparr>"

definition smallRequest :: CreateInstanceRequest where
  "smallRequest = \<lparr>Req_Name = ''small'', Req_Image = ''ubuntu/22.04'',
                    Req_Limits = Map.empty, Req_UserData = []\<rparr>"

definition idle :: "(Job list, string list) Server" where
  "idle = \<lparr>JobStore = [], DispatchQueue = []\<rparr>"

section \<open>Instance store and startup synchronisation\<close>

text \<open>
  The persisted fields of \<open>types.Instance\<close>, which are the columns of \<open>instances\<close>.
  \<open>Limits\<close> is a Go map: \<open>None\<close> is the nil map, which \<open>json.Marshal\<close> writes as \<open>null\<close>
  and \<open>json.Unmarshal\<close> reads back as nil; the column holds what \<open>Create\<close> and
  \<open>UpdateLimits\<close> marshal.
\<close>

record Instance =
  Instance_Name :: string
  Instance_Image :: string
  Instance_Limits :: "(string \<rightharpoonup> string) option"
  Instance_UserData :: string
  Instance_Type :: string
  Instance_BackupSchedule :: string
  Instance_BackupRetention :: int
  Instance_BackupEnabled :: bool

text \<open>
  \<open>InstanceRepository.Get\<close>: when the row is missing, \<open>sql.ErrNoRows\<close> is replaced by
  \<open>fmt.Errorf("instance not found: %s", name)\<close>, a new error value. A retention of 0 is
  read as 7.
\<close>

definition Get :: "Instance list \<Rightarrow> string \<Rightarrow> error + Instance" where
  "Get rows name =
     (case filter (\<lambda>r. Instance_Name r = name) rows of
        [] \<Rightarrow> Inl (ErrInstanceNotFound name)
      | r # rest \<Rightarrow>
          Inr (if Instance_BackupRetention r = 0 then r\<lparr>Instance_BackupRetention := 7\<rparr>
               else r))"

definition GetInstance :: "Instance list \<Rightarrow> string \<Rightarrow> error + Instance" where
  "GetInstance rows name = Get rows name"

text \<open>
  \<open>Create\<close>, the \<open>INSERT\<close>: the primary key and the check \<open>backup_retention > 0\<close> of
  migration 2 can refuse the row.
\<close>

definition Create :: "Instance list \<Rightarrow> Instance \<Rightarrow> (error + unit) \<times> Instance list" where
  "Create rows instance =
     (if Instance_Name instance \<in> set (map Instance_Name rows) then (Inl ErrDuplicateKey, rows)
      else if Instance_BackupRetention instance \<le> 0 then (Inl ErrCheckViolation, rows)
      else (Inr (), rows @ [instance]))"

definition CreateInstance :: "Instance list \<Rightarrow> Instance \<Rightarrow> (error + unit) \<times> Instance list" where
  "CreateInstance rows instance = Create rows instance"

text \<open>\<open>UpdateLimits\<close>: \<open>UPDATE instances SET limits = $1 WHERE name = $2\<close>.\<close>

definition UpdateLimits ::
    "Instance list \<Rightarrow> string \<Rightarrow> (string \<rightharpoonup> string) option
     \<Rightarrow> (error + unit) \<times> Instance list" where
  "UpdateLimits rows name limits =
     (if length (filter (\<lambda>r. Instance_Name r = name) rows) = 0
      then (Inl (ErrInstanceNotFound name), rows)
      else (Inr (),
            map (\<lambda>r. if Instance_Name r = name then r\<lparr>Instance_Limits := limits\<rparr> else r)
              rows))"

definition UpdateInstanceStatusAndLimits ::
    "Instance list \<Rightarrow> string \<Rightarrow> (string \<rightharpoonup> string) option
     \<Rightarrow> (error + unit) \<times> Instance list" where
  "UpdateInstanceStatusAndLimits rows name limits = UpdateLimits rows name limits"

text \<open>
  The runtime provider (\<open>lxc.InstanceService\<close>) is not among the sources. It is what
  its two calls return: the list of live instances, and the state of an instance by
  name. An instance has a name, a status, a type and a configuration map; a state has
  a status and, per network interface, the list of its addresses.
\<close>

record LxdInstance =
  Lxd_Name :: string
  Lxd_Status :: string
  Lxd_Type :: string
  Lxd_Config :: "(string \<rightharpoonup> string) option"

record NetAddress =
  Addr_Family :: string
  Addr_Address :: string

record InstanceState =
  State_Status :: string
  State_Network :: "string \<rightharpoonup> NetAddress list"

record Provider =
  ListInstances :: "error + LxdInstance list"
  GetInstanceState :: "string \<Rightarrow> error + InstanceState"

text \<open>Reading a key of a Go map: the empty string when the map is nil or has no such key.\<close>

definition mapGet :: "(string \<rightharpoonup> string) option \<Rightarrow> string \<Rightarrow> string" where
  "mapGet m k =
     (case m of
        None \<Rightarrow> []
      | Some f \<Rightarrow> (case f k of None \<Rightarrow> [] | Some v \<Rightarrow> v))"

text \<open>
  The loop over the addresses of \<open>eth0\<close>: the last \<open>inet\<close> address wins, an \<open>inet6\<close>
  address is taken while none has been found.
\<close>

fun scanAddresses :: "NetAddress list \<Rightarrow> string \<Rightarrow> string \<Rightarrow> string \<times> string" where
  "scanAddresses [] ipv4 ipv6 = (ipv4, ipv6)"
| "scanAddresses (addr # addrs) ipv4 ipv6 =
     (if Addr_Family addr = ''inet'' then scanAddresses addrs (Addr_Address addr) ipv6
      else if Addr_Family addr = ''inet6'' \<and> ipv6 = [] then
        scanAddresses addrs ipv4 (Addr_Address addr)
      else scanAddresses addrs ipv4 ipv6)"

text \<open>
  The limits of an instance that is in the store, refreshed from the provider. Writing
  a key of a nil map panics. \<open>strings.ToUpper\<close> belongs to Go's standard library and
  maps every letter Unicode knows; it is the argument \<open>toUpper\<close> of the model.
\<close>

definition refreshedLimits ::
    "(string \<Rightarrow> string) \<Rightarrow> Provider \<Rightarrow> LxdInstance \<Rightarrow> (string \<rightharpoonup> string) option
     \<Rightarrow> error + (string \<rightharpoonup> string)" where
  "refreshedLimits toUpper lxd lxdInstance limits =
     (case limits of
        None \<Rightarrow> Inl ErrPanic
      | Some m \<Rightarrow>
          (case GetInstanceState lxd (Lxd_Name lxdInstance) of
             Inl stateErr \<Rightarrow> Inr (m(''status'' \<mapsto> toUpper (Lxd_Status lxdInstance)))
           | Inr instanceState \<Rightarrow>
               (let (ipv4, ipv6) =
                      (case State_Network instanceState ''eth0'' of
                         Some addrs \<Rightarrow> scanAddresses addrs [] []
                       | None \<Rightarrow> ([], []));
                    m1 = (if ipv4 \<noteq> [] then m(''volatile.ipv4'' \<mapsto> ipv4)
                          else m(''volatile.ipv4'' := None));
                    m2 = (if ipv6 \<noteq> [] then m1(''volatile.ipv6'' \<mapsto> ipv6)
                          else m1(''volatile.ipv6'' := None))
                in Inr (m2(''status'' \<mapsto> toUpper (State_Status instanceState))))))"

text \<open>
  One round of the loop of \<open>RunStartupSync\<close>. The error of \<open>GetInstance\<close> is compared
  with \<open>sql.ErrNoRows\<close>; any other error is logged. The first component is the panic,
  if the round ends in one.
\<close>

definition syncInstance ::
    "(string \<Rightarrow> string) \<Rightarrow> Provider \<Rightarrow> Instance list \<Rightarrow> LxdInstance
     \<Rightarrow> error option \<times> Instance list" where
  "syncInstance toUpper lxd rows lxdInstance =
     (case GetInstance rows (Lxd_Name lxdInstance) of
        Inl err \<Rightarrow>
          (if err = ErrNoRows then
             (let newInstance =
                    \<lparr>Instance_Name = Lxd_Name lxdInstance,
                     Instance_Image = mapGet (Lxd_Config lxdInstance) ''volatile.base_image'',
                     Instance_Limits = Lxd_Config lxdInstance,
                     Instance_UserData = [],
                     Instance_Type = Lxd_Type lxdInstance,
                     Instance_BackupSchedule = ''@daily'',
                     Instance_BackupRetention = 7,
                     Instance_BackupEnabled = False\<rparr>
              in (None, snd (CreateInstance rows newInstance)))
           else (None, rows))
      | Inr dbInstance \<Rightarrow>
          (case refreshedLimits toUpper lxd lxdInstance (Instance_Limits dbInstance) of
             Inl panic \<Rightarrow> (Some panic, rows)
           | Inr limits \<Rightarrow>
               (None,
                snd (UpdateInstanceStatusAndLimits rows (Instance_Name dbInstance)
                       (Some limits)))))"

fun syncLoop ::
    "(string \<Rightarrow> string) \<Rightarrow> Provider \<Rightarrow> Instance list \<Rightarrow> LxdInstance list
     \<Rightarrow> error option \<times> Instance list" where
  "syncLoop toUpper lxd rows [] = (None, rows)"
| "syncLoop toUpper lxd rows (lxdInstance # rest) =
     (case syncInstance toUpper lxd rows lxdInstance of
        (Some panic, rows') \<Rightarrow> (Some panic, rows')
      | (None, rows') \<Rightarrow> syncLoop toUpper lxd rows' rest)"

definition RunStartupSync ::
    "(string \<Rightarrow> string) \<Rightarrow> Instance list \<Rightarrow> Provider \<Rightarrow> error option \<times> Instance list" where
  "RunStartupSync toUpper rows lxd =
     (case ListInstances lxd of
        Inl err \<Rightarrow> (None, rows)
      | Inr lxdInstances \<Rightarrow> syncLoop toUpper lxd rows lxdInstances)"

text \<open>A provider with one running container, \<open>web1\<close>.\<close>

definition web1 :: LxdInstance where
  "web1 = \<lparr>Lxd_Name = ''web1'', Lxd_Status = ''Running'', Lxd_Type = ''container'',
            Lxd_Config = Some [''volatile.base_image'' \<mapsto> ''ubuntu/22.04'',
                               ''limits.cpu'' \<mapsto> ''2'']\<rparr>"

definition oneContainer :: Provider where
  "oneContainer =
     \<lparr>ListInstances = Inr [web1],
      GetInstanceState = (\<lambda>name. Inr \<lparr>State_Status = ''Running'',
         State_Network = [''eth0'' \<mapsto> [\<lparr>Addr_Family = ''inet'',
                                           Addr_Address = ''10.0.0.2''\<rparr>]]\<rparr>)\<rparr>"

section \<open>Verified properties: IP address management\<close>

subsection \<open>ReleaseIP keeps the rows\<close>

lemma releaseRow_ip: "ip (releaseRow nm l) = ip l"
  by (simp add: releaseRow_def)

lemma releaseRow_network_id: "network_id (releaseRow nm l) = network_id l"
  by (simp add: releaseRow_def)

text \<open>
  C7. After \<open>ReleaseIP name\<close>, which always succeeds: no lease row has \<open>name\<close> as owner;
  every row that \<open>name\<close> owned has owner and timestamp both null; the rows are the same
  rows, position by position, with the same \<open>ip\<close> and \<open>network_id\<close> (so none is deleted
  or inserted); a row that \<open>name\<close> did not own is unchanged; the networks table is
  unchanged.
\<close>

theorem ReleaseIP_clears_owner_keeps_rows:
  "fst (ReleaseIP s name) = Inr ()
   \<and> (\<forall>l \<in> set (ip_leases (snd (ReleaseIP s name))). instance_name l \<noteq> Some name)
   \<and> length (ip_leases (snd (ReleaseIP s name))) = length (ip_leases s)
   \<and> map ip (ip_leases (snd (ReleaseIP s name))) = map ip (ip_leases s)
   \<and> map network_id (ip_leases (snd (ReleaseIP s name))) = map network_id (ip_leases s)
   \<and> (\<forall>k < length (ip_leases s).
         (instance_name (ip_leases s ! k) = Some name \<longrightarrow>
            instance_name (ip_leases (snd (ReleaseIP s name)) ! k) = None
            \<and> allocated_at (ip_leases (snd (ReleaseIP s name)) ! k) = None)
       \<and> (instance_name (ip_leases s ! k) \<noteq> Some name \<longrightarrow>
            ip_leases (snd (ReleaseIP s name)) ! k = ip_leases s ! k))
   \<and> networks (snd (ReleaseIP s name)) = networks s"
  by (auto simp: ReleaseIP_def releaseRow_def comp_def)

theorem ReleaseIP_clears_owner_keeps_rows_witness:
  "instance_name (ip_leases twoLeases ! 0) = Some ''web1''
   \<and> instance_name (ip_leases twoLeases ! 1) \<noteq> Some ''web1''
   \<and> instance_name (ip_leases (snd (ReleaseIP twoLeases ''web1'')) ! 0) = None
   \<and> allocated_at (ip_leases (snd (ReleaseIP twoLeases ''web1'')) ! 0) = None
   \<and> ip_leases (snd (ReleaseIP twoLeases ''web1'')) ! 1 = ip_leases twoLeases ! 1
   \<and> map ip (ip_leases (snd (ReleaseIP twoLeases ''web1''))) = [''10.0.0.2'', ''10.0.0.3'']"
  using ReleaseIP_clears_owner_keeps_rows [of twoLeases "''web1''"]
  by (simp add: twoLeases_def)

subsection \<open>The claim-or-insert transaction\<close>

lemma owned_iff: "owned leases a \<longleftrightarrow> (\<exists>l \<in> set leases. ip l = a \<and> instance_name l \<noteq> None)"
  by (simp add: owned_def list_ex_iff)

lemma distinct_ip_same:
  "distinct (map ip leases) \<Longrightarrow> l \<in> set leases \<Longrightarrow> l' \<in> set leases \<Longrightarrow> ip l = ip l' \<Longrightarrow> l = l'"
  by (meson distinct_map inj_onD)

lemma tryReserve_cases:
  assumes "tryReserve leases a nm now nid = Some leases'"
  shows "(\<exists>l \<in> set leases. claimable a l) \<and> leases' = map (claimRow a nm now nid) leases
         \<or> a \<notin> set (map ip leases)
            \<and> leases' = leases @ [\<lparr>ip = a, instance_name = Some nm, allocated_at = Some now,
                                    network_id = nid\<rparr>]"
  using assms
  by (auto simp: tryReserve_def existsGlobal_def Let_def filter_empty_conv split: if_splits)

lemma tryReserve_free_before:
  assumes "tryReserve leases a nm now nid = Some leases'" and "distinct (map ip leases)"
  shows "\<not> owned leases a"
proof
  assume "owned leases a"
  then obtain l where l: "l \<in> set leases" "ip l = a" "instance_name l \<noteq> None"
    by (auto simp: owned_iff)
  from tryReserve_cases [OF assms(1)] show False
  proof
    assume "(\<exists>l \<in> set leases. claimable a l) \<and> leases' = map (claimRow a nm now nid) leases"
    then obtain l0 where l0: "l0 \<in> set leases" "ip l0 = a" "instance_name l0 = None"
      by (auto simp: claimable_def)
    with l assms(2) have "l = l0" by (auto intro: distinct_ip_same)
    with l l0 show False by simp
  next
    assume "a \<notin> set (map ip leases) \<and>
            leases' = leases @ [\<lparr>ip = a, instance_name = Some nm, allocated_at = Some now,
                                  network_id = nid\<rparr>]"
    with l show False by auto
  qed
qed

lemma claimRow_ip: "ip (claimRow a nm now nid l) = ip l"
  by (simp add: claimRow_def)

lemma tryReserve_ips:
  assumes "tryReserve leases a nm now nid = Some leases'"
  shows "map ip leases' = map ip leases \<and> a \<in> set (map ip leases)
         \<or> map ip leases' = map ip leases @ [a] \<and> a \<notin> set (map ip leases)"
  using tryReserve_cases [OF assms]
  by (auto simp: claimRow_ip comp_def claimable_def)

lemma tryReserve_distinct:
  assumes "tryReserve leases a nm now nid = Some leases'" and "distinct (map ip leases)"
  shows "distinct (map ip leases')"
  using tryReserve_ips [OF assms(1)] assms(2) by auto

lemma tryReserve_owner_after:
  assumes "tryReserve leases a nm now nid = Some leases'"
  shows "\<exists>l \<in> set leases'. ip l = a \<and> instance_name l = Some nm \<and> allocated_at l = Some now
            \<and> network_id l = nid"
  using tryReserve_cases [OF assms]
proof
  assume h: "(\<exists>l \<in> set leases. claimable a l) \<and> leases' = map (claimRow a nm now nid) leases"
  then obtain l0 where l0: "l0 \<in> set leases" "claimable a l0" by blast
  then have "claimRow a nm now nid l0 \<in> set leases'" using h by simp
  moreover have "ip (claimRow a nm now nid l0) = a"
      "instance_name (claimRow a nm now nid l0) = Some nm"
      "allocated_at (claimRow a nm now nid l0) = Some now"
      "network_id (claimRow a nm now nid l0) = nid"
    using l0(2) by (simp_all add: claimRow_def claimable_def)
  ultimately show ?thesis by blast
next
  assume "a \<notin> set (map ip leases) \<and>
          leases' = leases @ [\<lparr>ip = a, instance_name = Some nm, allocated_at = Some now,
                                network_id = nid\<rparr>]"
  then show ?thesis by simp
qed

lemma tryReserve_sole_owner:
  assumes "tryReserve leases a nm now nid = Some leases'" and "distinct (map ip leases)"
    and "l \<in> set leases'" and "ip l = a"
  shows "instance_name l = Some nm"
proof -
  obtain l0 where l0: "l0 \<in> set leases'" "ip l0 = a" "instance_name l0 = Some nm"
    using tryReserve_owner_after [OF assms(1)] by blast
  have "distinct (map ip leases')" by (rule tryReserve_distinct [OF assms(1,2)])
  with l0 assms(3,4) have "l = l0" by (auto intro: distinct_ip_same)
  with l0 show ?thesis by simp
qed

lemma tryReserve_frame:
  assumes "tryReserve leases a nm now nid = Some leases'"
  shows "filter (\<lambda>l. ip l \<noteq> a) leases' = filter (\<lambda>l. ip l \<noteq> a) leases"
proof -
  have "filter (\<lambda>l. ip l \<noteq> a) (map (claimRow a nm now nid) leases) = filter (\<lambda>l. ip l \<noteq> a) leases"
    by (induction leases) (auto simp: claimRow_def claimable_def)
  with tryReserve_cases [OF assms] show ?thesis by auto
qed

lemma tryReserve_None_iff:
  "tryReserve leases a nm now nid = None
   \<longleftrightarrow> a \<in> set (map ip leases) \<and> \<not> (\<exists>l \<in> set leases. claimable a l)"
  by (auto simp: tryReserve_def existsGlobal_def Let_def filter_empty_conv)

lemma blocked_iff_owned:
  assumes "distinct (map ip leases)"
  shows "a \<in> set (usedIPs leases nid) \<or> tryReserve leases a nm now nid = None \<longleftrightarrow> owned leases a"
proof
  assume "a \<in> set (usedIPs leases nid) \<or> tryReserve leases a nm now nid = None"
  then show "owned leases a"
    by (auto simp: usedIPs_def owned_iff tryReserve_None_iff claimable_def)
next
  assume "owned leases a"
  then obtain l where l: "l \<in> set leases" "ip l = a" "instance_name l \<noteq> None"
    by (auto simp: owned_iff)
  have "\<not> (\<exists>l' \<in> set leases. claimable a l')"
  proof
    assume "\<exists>l' \<in> set leases. claimable a l'"
    then obtain l' where l': "l' \<in> set leases" "ip l' = a" "instance_name l' = None"
      by (auto simp: claimable_def)
    with l assms have "l = l'" by (auto intro: distinct_ip_same)
    with l l' show False by simp
  qed
  moreover have "a \<in> set (map ip leases)" using l by auto
  ultimately show "a \<in> set (usedIPs leases nid) \<or> tryReserve leases a nm now nid = None"
    by (simp add: tryReserve_None_iff)
qed

lemma scanRange_sound:
  "scanRange leases used nid nm now i e = Inr (a, leases')
   \<Longrightarrow> \<exists>j. i \<le> j \<and> j < e \<and> a = IntToIP j \<and> a \<notin> set used
           \<and> tryReserve leases a nm now nid = Some leases'"
proof (induction leases used nid nm now i e rule: scanRange.induct)
  case (1 leases used nid nm now i e)
  show ?case
  proof (cases "i < e")
    case False
    with "1.prems" show ?thesis by (simp add: scanRange.simps)
  next
    case lt: True
    have step: "i \<le> i + 1" using lt by (simp add: word_le_nat_alt unat_succ_below)
    show ?thesis
    proof (cases "IntToIP i \<notin> set used \<and> tryReserve leases (IntToIP i) nm now nid \<noteq> None")
      case True
      with lt "1.prems" show ?thesis
        by (subst (asm) scanRange.simps) (auto split: option.splits)
    next
      case False
      then have rec: "scanRange leases used nid nm now (i + 1) e = Inr (a, leases')"
        using lt "1.prems" by (subst (asm) scanRange.simps) (auto split: option.splits)
      have "\<exists>j. i + 1 \<le> j \<and> j < e \<and> a = IntToIP j \<and> a \<notin> set used
           \<and> tryReserve leases a nm now nid = Some leases'"
      proof (cases "IntToIP i \<notin> set used")
        case True
        with False have "tryReserve leases (IntToIP i) nm now nid = None" by simp
        from "1.IH"(1) [OF lt True this rec] show ?thesis .
      next
        case False
        from "1.IH"(2) [OF lt False rec] show ?thesis .
      qed
      then obtain j where "i + 1 \<le> j" "j < e" "a = IntToIP j" "a \<notin> set used"
           "tryReserve leases a nm now nid = Some leases'" by blast
      moreover from step \<open>i + 1 \<le> j\<close> have "i \<le> j" by simp
      ultimately show ?thesis by blast
    qed
  qed
qed

subsection \<open>GetNetworksWithStats\<close>

lemma pow_gt2_iff: "p \<le> 32 \<Longrightarrow> (2 :: int) < 2 ^ (32 - p) \<longleftrightarrow> p \<le> 30"
proof
  assume p: "p \<le> 32" and "(2 :: int) < 2 ^ (32 - p)"
  then have "(2 :: int) ^ 1 < 2 ^ (32 - p)" by simp
  then have "1 < 32 - p" by (simp only: power_strict_increasing_iff)
  then show "p \<le> 30" by simp
next
  assume "p \<le> 32" and "p \<le> 30"
  then have "1 < 32 - p" by simp
  then have "(2 :: int) ^ 1 < 2 ^ (32 - p)" by (simp only: power_strict_increasing_iff)
  then show "(2 :: int) < 2 ^ (32 - p)" by simp
qed

lemma networkStats_right:
  assumes "prefixOK (CIDR n)"
  shows "\<exists>st. networkStats leases n = Inr st \<and> NetworkOf st = n \<and> statsRight leases st"
proof (cases "CIDR n")
  case (ParsedV4 a p)
  with assms have p: "p \<le> 32" by (simp add: prefixOK_def)
  show ?thesis
    using p pow_gt2_iff [OF p] ParsedV4
    by (simp add: networkStats_def totalIPs_def shiftedTotal_def Let_def statsRight_def
        countUsed_def usagePercent_def)
next
  case (ParsedV6 p)
  with assms have p: "p \<le> 32" by (simp add: prefixOK_def)
  show ?thesis
    using p ParsedV6
    by (simp add: networkStats_def totalIPs_def shiftedTotal_def Let_def statsRight_def
        countUsed_def usagePercent_def)
next
  case ParseError
  then show ?thesis
    by (simp add: networkStats_def totalIPs_def Let_def statsRight_def countUsed_def
        usagePercent_def)
qed

lemma statsLoop_right:
  "list_all (\<lambda>n. prefixOK (CIDR n)) ns
   \<Longrightarrow> \<exists>stats. statsLoop leases ns = Inr stats \<and> map NetworkOf stats = ns
              \<and> list_all (statsRight leases) stats"
proof (induction ns)
  case Nil
  then show ?case by simp
next
  case (Cons n ns)
  then obtain stats where s: "statsLoop leases ns = Inr stats" "map NetworkOf stats = ns"
      "list_all (statsRight leases) stats" by auto
  from Cons.prems obtain st where t: "networkStats leases n = Inr st" "NetworkOf st = n"
      "statsRight leases st"
    using networkStats_right [of n leases] by auto
  from s t show ?case by simp
qed

text \<open>
  C4, as amended. When every network has a prefix length of at most 32 (as every IPv4
  CIDR has), \<open>GetNetworksWithStats\<close> returns one entry per network, in \<open>created_at\<close>
  order, and for a network whose CIDR is IPv4 with prefix length \<open>p\<close> the entry has
  \<open>TotalIPs = 2 ^ (32 - p) - 3\<close> when \<open>p \<le> 30\<close> and \<open>TotalIPs = 2 ^ (32 - p)\<close> otherwise
  (2 for \<open>p = 31\<close>, 1 for \<open>p = 32\<close>: the three reserved addresses are taken off only when
  more than two addresses are there); \<open>UsedIPs\<close> is the number of leases of the network
  with a non-null owner; \<open>UsagePercent\<close> is \<open>(float64(UsedIPs) / float64(TotalIPs)) * 100\<close>
  when \<open>TotalIPs > 0\<close>.
\<close>

theorem GetNetworksWithStats_totals:
  "(\<forall>n \<in> set (networks s). prefixOK (CIDR n)) \<longrightarrow>
     (\<exists>stats. GetNetworksWithStats s = Inr stats
        \<and> map NetworkOf stats = sort_key CreatedAt (networks s)
        \<and> (\<forall>st \<in> set stats. statsRight (ip_leases s) st))"
proof
  assume "\<forall>n \<in> set (networks s). prefixOK (CIDR n)"
  then have "list_all (\<lambda>n. prefixOK (CIDR n)) (sort_key CreatedAt (networks s))"
    by (simp add: list_all_iff)
  from statsLoop_right [OF this, of "ip_leases s"]
  show "\<exists>stats. GetNetworksWithStats s = Inr stats
        \<and> map NetworkOf stats = sort_key CreatedAt (networks s)
        \<and> (\<forall>st \<in> set stats. statsRight (ip_leases s) st)"
    by (auto simp: GetNetworksWithStats_def list_all_iff)
qed

text \<open>
  The claim as stated, \<open>TotalIPs = max (2 ^ (32 - p) - 3) 0\<close>, asks for 0 at \<open>p = 32\<close> and
  at \<open>p = 31\<close>; the code reports 1 and 2.
\<close>

theorem GetNetworksWithStats_small_prefix_counterexample:
  "GetNetworksWithStats smallPools
     = Inr [\<lparr>NetworkOf = host32, TotalIPs = 1, UsedIPs = 0, UsagePercent =
               FMul (FDiv (FloatOfInt 0) (FloatOfInt 1)) (FloatOfInt 100)\<rparr>,
            \<lparr>NetworkOf = link31, TotalIPs = 2, UsedIPs = 0, UsagePercent =
               FMul (FDiv (FloatOfInt 0) (FloatOfInt 2)) (FloatOfInt 100)\<rparr>]
   \<and> CIDR host32 = ParsedV4 0x0A000001 32 \<and> max ((2 :: int) ^ (32 - 32) - 3) 0 = 0
   \<and> CIDR link31 = ParsedV4 0x0A000100 31 \<and> max ((2 :: int) ^ (32 - 31) - 3) 0 = 0"
  by (simp add: GetNetworksWithStats_def smallPools_def host32_def link31_def networkStats_def
      totalIPs_def shiftedTotal_def countUsed_def usagePercent_def)

theorem GetNetworksWithStats_totals_witness:
  "prefixOK (CIDR pool29) \<and>
   GetNetworksWithStats twoLeases
     = Inr [\<lparr>NetworkOf = pool29, TotalIPs = 5, UsedIPs = 1, UsagePercent =
               FMul (FDiv (FloatOfInt 1) (FloatOfInt 5)) (FloatOfInt 100)\<rparr>]
   \<and> statsRight (ip_leases twoLeases) \<lparr>NetworkOf = pool29, TotalIPs = 5, UsedIPs = 1, UsagePercent =
               FMul (FDiv (FloatOfInt 1) (FloatOfInt 5)) (FloatOfInt 100)\<rparr>"
  using GetNetworksWithStats_totals [of twoLeases]
  by (simp add: GetNetworksWithStats_def twoLeases_def pool29_def networkStats_def
      totalIPs_def shiftedTotal_def countUsed_def usagePercent_def prefixOK_def)

subsection \<open>DeleteNetwork\<close>

text \<open>
  C6. When a lease of the network has a non-null owner, \<open>DeleteNetwork\<close> returns an error
  and the store (lease table and networks table) is unchanged. Otherwise the lease table
  loses exactly the rows of that network, owned or not, and the networks table exactly
  the rows with that id; the call then succeeds exactly when such a network row was
  there (it returns \<open>sql.ErrNoRows\<close> when none was).
\<close>

theorem DeleteNetwork_refuses_or_deletes:
  "((\<exists>l \<in> set (ip_leases s). network_id l = netId \<and> instance_name l \<noteq> None) \<longrightarrow>
      (\<exists>c. fst (DeleteNetwork s netId) = Inl (ErrActiveAllocations c))
      \<and> snd (DeleteNetwork s netId) = s)
   \<and> (\<not> (\<exists>l \<in> set (ip_leases s). network_id l = netId \<and> instance_name l \<noteq> None) \<longrightarrow>
      ip_leases (snd (DeleteNetwork s netId))
        = filter (\<lambda>l. network_id l \<noteq> netId) (ip_leases s)
      \<and> networks (snd (DeleteNetwork s netId)) = filter (\<lambda>n. ID n \<noteq> netId) (networks s)
      \<and> (\<forall>l \<in> set (ip_leases (snd (DeleteNetwork s netId))). network_id l \<noteq> netId)
      \<and> (\<forall>n \<in> set (networks (snd (DeleteNetwork s netId))). ID n \<noteq> netId)
      \<and> (fst (DeleteNetwork s netId) = Inr () \<longleftrightarrow> (\<exists>n \<in> set (networks s). ID n = netId)))"
proof -
  let ?cnt = "length (filter (\<lambda>l. network_id l = netId \<and> instance_name l \<noteq> None) (ip_leases s))"
  have cnt: "0 < ?cnt \<longleftrightarrow> (\<exists>l \<in> set (ip_leases s). network_id l = netId \<and> instance_name l \<noteq> None)"
    by (simp add: filter_empty_conv)
  have rows: "length (filter (\<lambda>n. ID n = netId) (networks s)) = 0
                \<longleftrightarrow> \<not> (\<exists>n \<in> set (networks s). ID n = netId)"
    by (simp add: filter_empty_conv)
  show ?thesis
  proof (cases "0 < ?cnt")
    case True
    then show ?thesis using cnt by (simp add: DeleteNetwork_def Let_def)
  next
    case False
    then show ?thesis using cnt rows by (simp add: DeleteNetwork_def Let_def)
  qed
qed

theorem DeleteNetwork_refuses_or_deletes_witness:
  "(\<exists>l \<in> set (ip_leases twoLeases). network_id l = ''1'' \<and> instance_name l \<noteq> None)
   \<and> fst (DeleteNetwork twoLeases ''1'') = Inl (ErrActiveAllocations 1)
   \<and> snd (DeleteNetwork twoLeases ''1'') = twoLeases
   \<and> \<not> (\<exists>l \<in> set (ip_leases reservedOnly). network_id l = ''1'' \<and> instance_name l \<noteq> None)
   \<and> ip_leases reservedOnly \<noteq> []
   \<and> ip_leases (snd (DeleteNetwork reservedOnly ''1'')) = []
   \<and> networks (snd (DeleteNetwork reservedOnly ''1'')) = []
   \<and> fst (DeleteNetwork reservedOnly ''1'') = Inr ()"
proof -
  have a: "\<exists>l \<in> set (ip_leases twoLeases). network_id l = ''1'' \<and> instance_name l \<noteq> None"
    by (simp add: twoLeases_def)
  have b: "\<not> (\<exists>l \<in> set (ip_leases reservedOnly). network_id l = ''1'' \<and> instance_name l \<noteq> None)"
    by (simp add: reservedOnly_def)
  have c: "fst (DeleteNetwork twoLeases ''1'') = Inl (ErrActiveAllocations 1)"
    by (simp add: DeleteNetwork_def twoLeases_def)
  have d: "ip_leases reservedOnly \<noteq> []" by (simp add: reservedOnly_def)
  have e: "filter (\<lambda>l. network_id l \<noteq> ''1'') (ip_leases reservedOnly) = []"
     "filter (\<lambda>n. ID n \<noteq> ''1'') (networks reservedOnly) = []"
     "\<exists>n \<in> set (networks reservedOnly). ID n = ''1''"
    by (simp_all add: reservedOnly_def pool29_def)
  note refused = DeleteNetwork_refuses_or_deletes [of twoLeases "''1''", THEN conjunct1, THEN mp, OF a]
  note deleted = DeleteNetwork_refuses_or_deletes [of reservedOnly "''1''", THEN conjunct2, THEN mp, OF b]
  have f: "snd (DeleteNetwork twoLeases ''1'') = twoLeases"
    by (rule refused [THEN conjunct2])
  have g1: "ip_leases (snd (DeleteNetwork reservedOnly ''1'')) = []"
    using deleted [THEN conjunct1] e(1) by (rule trans)
  have g2: "networks (snd (DeleteNetwork reservedOnly ''1'')) = []"
    using deleted [THEN conjunct2, THEN conjunct1] e(2) by (rule trans)
  have g3: "fst (DeleteNetwork reservedOnly ''1'') = Inr ()"
    using deleted [THEN conjunct2, THEN conjunct2, THEN conjunct2, THEN conjunct2] e(3)
    by (rule iffD2)
  show ?thesis
    by (intro conjI a b c d f g1 g2 g3)
qed

subsection \<open>GetInstanceIP\<close>

text \<open>
  C10. \<open>GetInstanceIP\<close> never returns an error. For a name that owns no lease row it
  returns the empty string; for a name that owns one it returns the address of a row
  that name owns. Lease rows carry addresses, which are not empty (every row the
  allocator writes has one printed by \<open>IntToIP\<close>); then a non-empty string is returned
  exactly when some lease row names the instance as owner.
\<close>

theorem GetInstanceIP_empty_without_lease:
  "(\<not> (\<exists>l \<in> set (ip_leases s). instance_name l = Some name) \<longrightarrow>
      GetInstanceIP s name = Inr [])
   \<and> ((\<exists>l \<in> set (ip_leases s). instance_name l = Some name) \<longrightarrow>
      (\<exists>l \<in> set (ip_leases s). instance_name l = Some name \<and> GetInstanceIP s name = Inr (ip l)))
   \<and> ((\<forall>l \<in> set (ip_leases s). ip l \<noteq> []) \<longrightarrow>
      ((\<exists>a. a \<noteq> [] \<and> GetInstanceIP s name = Inr a)
        \<longleftrightarrow> (\<exists>l \<in> set (ip_leases s). instance_name l = Some name)))
   \<and> (\<forall>e. GetInstanceIP s name \<noteq> Inl e)"
proof -
  let ?own = "filter (\<lambda>l. instance_name l = Some name) (ip_leases s)"
  show ?thesis
  proof (cases ?own)
    case Nil
    then have none: "\<not> (\<exists>l \<in> set (ip_leases s). instance_name l = Some name)"
      by (simp add: filter_empty_conv)
    from Nil have "GetInstanceIP s name = Inr []" by (simp add: GetInstanceIP_def)
    with none show ?thesis by simp
  next
    case (Cons l rest)
    then have "l \<in> set ?own" by simp
    then have l: "l \<in> set (ip_leases s)" "instance_name l = Some name" by simp_all
    from Cons have r: "GetInstanceIP s name = Inr (ip l)" by (simp add: GetInstanceIP_def)
    from l r show ?thesis by auto
  qed
qed

theorem GetInstanceIP_empty_without_lease_witness:
  "\<not> (\<exists>l \<in> set (ip_leases twoLeases). instance_name l = Some ''ghost'')
   \<and> GetInstanceIP twoLeases ''ghost'' = Inr []
   \<and> (\<exists>l \<in> set (ip_leases twoLeases). instance_name l = Some ''web1'')
   \<and> list_all (\<lambda>l. ip l \<noteq> []) (ip_leases twoLeases)
   \<and> GetInstanceIP twoLeases ''web1'' = Inr ''10.0.0.2''"
proof -
  have a: "\<not> (\<exists>l \<in> set (ip_leases twoLeases). instance_name l = Some ''ghost'')"
    by (simp add: twoLeases_def)
  have b: "\<exists>l \<in> set (ip_leases twoLeases). instance_name l = Some ''web1''"
    by (simp add: twoLeases_def)
  have c: "list_all (\<lambda>l. ip l \<noteq> []) (ip_leases twoLeases)"
    by (simp add: twoLeases_def)
  have d: "GetInstanceIP twoLeases ''web1'' = Inr ''10.0.0.2''"
    by (simp add: GetInstanceIP_def twoLeases_def)
  from GetInstanceIP_empty_without_lease [of twoLeases "''ghost''"] a
  have e: "GetInstanceIP twoLeases ''ghost'' = Inr []" by blast
  from a b c d e show ?thesis by blast
qed

subsection \<open>The scan of a pool\<close>

lemma word_interval_step:
  assumes "i < (e :: uint32)"
  shows "i \<le> j \<longleftrightarrow> j = i \<or> i + 1 \<le> j"
proof -
  have "unat i \<le> unat j \<longleftrightarrow> unat j = unat i \<or> Suc (unat i) \<le> unat j" by auto
  then show ?thesis
    by (simp add: word_le_nat_alt unat_succ_below [OF assms] word_unat_eq_iff)
qed

lemma forall_interval_step:
  assumes "i < (e :: uint32)"
  shows "(\<forall>j. i \<le> j \<and> j < e \<longrightarrow> P j) \<longleftrightarrow> P i \<and> (\<forall>j. i + 1 \<le> j \<and> j < e \<longrightarrow> P j)"
proof
  assume all: "\<forall>j. i \<le> j \<and> j < e \<longrightarrow> P j"
  have "P i" using all assms by simp
  moreover have "\<forall>j. i + 1 \<le> j \<and> j < e \<longrightarrow> P j"
  proof (intro allI impI)
    fix j assume "i + 1 \<le> j \<and> j < e"
    moreover then have "i \<le> j" using word_interval_step [OF assms, of j] by simp
    ultimately show "P j" using all by simp
  qed
  ultimately show "P i \<and> (\<forall>j. i + 1 \<le> j \<and> j < e \<longrightarrow> P j)" by simp
next
  assume r: "P i \<and> (\<forall>j. i + 1 \<le> j \<and> j < e \<longrightarrow> P j)"
  show "\<forall>j. i \<le> j \<and> j < e \<longrightarrow> P j"
  proof (intro allI impI)
    fix j assume j: "i \<le> j \<and> j < e"
    then have "j = i \<or> i + 1 \<le> j" using word_interval_step [OF assms, of j] by simp
    then show "P j" using r j by auto
  qed
qed

lemma scanRange_fails_iff:
  "scanRange leases used nid nm now i e = Inl err
   \<longleftrightarrow> err = ErrPoolFull
       \<and> (\<forall>j. i \<le> j \<and> j < e \<longrightarrow>
             IntToIP j \<in> set used \<or> tryReserve leases (IntToIP j) nm now nid = None)"
proof (induction leases used nid nm now i e rule: scanRange.induct)
  case (1 leases used nid nm now i e)
  let ?blocked = "\<lambda>j. IntToIP j \<in> set used \<or> tryReserve leases (IntToIP j) nm now nid = None"
  show ?case
  proof (cases "i < e")
    case False
    then have "\<not> (\<exists>j. i \<le> j \<and> j < e)" by auto
    with False show ?thesis by (subst scanRange.simps) auto
  next
    case lt: True
    have split: "(\<forall>j. i \<le> j \<and> j < e \<longrightarrow> ?blocked j)
                 \<longleftrightarrow> ?blocked i \<and> (\<forall>j. i + 1 \<le> j \<and> j < e \<longrightarrow> ?blocked j)"
      by (rule forall_interval_step [OF lt])
    show ?thesis
    proof (cases "?blocked i")
      case False
      then obtain leases' where "tryReserve leases (IntToIP i) nm now nid = Some leases'"
        by auto
      with False lt have "scanRange leases used nid nm now i e = Inr (IntToIP i, leases')"
        by (subst scanRange.simps) simp
      with False split show ?thesis by simp
    next
      case True
      have rec: "scanRange leases used nid nm now i e
                 = scanRange leases used nid nm now (i + 1) e"
        using lt True by (subst scanRange.simps) auto
      have "scanRange leases used nid nm now (i + 1) e = Inl err
            \<longleftrightarrow> err = ErrPoolFull \<and> (\<forall>j. i + 1 \<le> j \<and> j < e \<longrightarrow> ?blocked j)"
      proof (cases "IntToIP i \<notin> set used")
        case nu: True
        with True have "tryReserve leases (IntToIP i) nm now nid = None" by simp
        from "1.IH"(1) [OF lt nu this] show ?thesis .
      next
        case False
        from "1.IH"(2) [OF lt False] show ?thesis .
      qed
      with rec True split show ?thesis by simp
    qed
  qed
qed

lemma tryAllocateInNetwork_fails_iff:
  assumes "distinct (map ip leases)"
  shows "(\<exists>err. tryAllocateInNetwork leases n nm now = Inl err)
         \<longleftrightarrow> (\<forall>j \<in> scannedRange n. owned leases (IntToIP j))"
proof (cases "CidrToRange (CIDR n)")
  case (Inl err)
  then show ?thesis by (simp add: tryAllocateInNetwork_def scannedRange_def)
next
  case (Inr r)
  obtain s e where r: "r = (s, e)" by (cases r)
  have "(\<exists>err. scanRange leases (usedIPs leases (ID n)) (ID n) nm now (s + 2) e = Inl err)
        \<longleftrightarrow> (\<forall>j. s + 2 \<le> j \<and> j < e \<longrightarrow> owned leases (IntToIP j))"
    by (simp add: scanRange_fails_iff blocked_iff_owned [OF assms])
  with Inr r show ?thesis by (simp add: tryAllocateInNetwork_def scannedRange_def)
qed

lemma tryAllocateInNetwork_panics_iff:
  "tryAllocateInNetwork leases n nm now = Inl ErrPanic
   \<longleftrightarrow> CidrToRange (CIDR n) = Inl ErrPanic"
proof (cases "CidrToRange (CIDR n)")
  case (Inl err)
  then show ?thesis by (simp add: tryAllocateInNetwork_def)
next
  case (Inr r)
  obtain s e where "r = (s, e)" by (cases r)
  with Inr show ?thesis by (simp add: tryAllocateInNetwork_def scanRange_fails_iff)
qed

lemma allocateFrom_error:
  "allocateFrom leases ns nm now = Inl err \<Longrightarrow> err = ErrNoIPAvailable \<or> err = ErrPanic"
  by (induction ns) (auto split: sum.splits if_splits)

lemma allocateFrom_no_panic:
  "\<forall>n \<in> set ns. CidrToRange (CIDR n) \<noteq> Inl ErrPanic
   \<Longrightarrow> allocateFrom leases ns nm now \<noteq> Inl ErrPanic"
  by (induction ns) (auto split: sum.splits simp: tryAllocateInNetwork_panics_iff)

lemma allocateFrom_fails_iff:
  assumes "distinct (map ip leases)"
    and "\<forall>n \<in> set ns. CidrToRange (CIDR n) \<noteq> Inl ErrPanic"
  shows "(\<exists>err. allocateFrom leases ns nm now = Inl err)
         \<longleftrightarrow> (\<forall>n \<in> set ns. \<forall>j \<in> scannedRange n. owned leases (IntToIP j))"
  using assms(2)
proof (induction ns)
  case Nil
  then show ?case by simp
next
  case (Cons n ns)
  then have np: "tryAllocateInNetwork leases n nm now \<noteq> Inl ErrPanic"
    by (simp add: tryAllocateInNetwork_panics_iff)
  from Cons have IH: "(\<exists>err. allocateFrom leases ns nm now = Inl err)
         \<longleftrightarrow> (\<forall>n \<in> set ns. \<forall>j \<in> scannedRange n. owned leases (IntToIP j))"
    by simp
  show ?case
  proof (cases "tryAllocateInNetwork leases n nm now")
    case (Inl err)
    then have "\<forall>j \<in> scannedRange n. owned leases (IntToIP j)"
      using tryAllocateInNetwork_fails_iff [OF assms(1), of n nm now] by auto
    moreover from Inl np have "err \<noteq> ErrPanic" by auto
    ultimately show ?thesis using Inl IH by simp
  next
    case (Inr r)
    then have "\<not> (\<forall>j \<in> scannedRange n. owned leases (IntToIP j))"
      using tryAllocateInNetwork_fails_iff [OF assms(1), of n nm now] by auto
    with Inr show ?thesis by auto
  qed
qed

lemma set_getAvailableNetworks:
  "set (getAvailableNetworks s isPro) = {n \<in> set (networks s). IsPublic n = isPro}"
  by (auto simp: getAvailableNetworks_def)

lemma AllocateIP_failure_keeps_store:
  "fst (AllocateIP s nm now) = Inl err
   \<Longrightarrow> (err = ErrNoIPAvailable \<or> err = ErrPanic) \<and> snd (AllocateIP s nm now) = s"
  by (auto simp: AllocateIP_def split: sum.splits dest: allocateFrom_error)

lemma AllocateIP_fails_iff:
  assumes "distinct (map ip (ip_leases s))"
    and "\<forall>n \<in> set (networks s). \<not> IsPublic n \<longrightarrow> CidrToRange (CIDR n) \<noteq> Inl ErrPanic"
  shows "(\<exists>err. fst (AllocateIP s nm now) = Inl err)
         \<longleftrightarrow> (\<forall>n \<in> set (networks s). \<not> IsPublic n \<longrightarrow>
                 (\<forall>j \<in> scannedRange n. owned (ip_leases s) (IntToIP j)))"
    and "fst (AllocateIP s nm now) \<noteq> Inl ErrPanic"
proof -
  let ?ns = "getAvailableNetworks s False"
  let ?r = "allocateFrom (ip_leases s) ?ns nm now"
  have np: "\<forall>n \<in> set ?ns. CidrToRange (CIDR n) \<noteq> Inl ErrPanic"
    using assms(2) by (simp add: set_getAvailableNetworks)
  have "(\<exists>err. fst (AllocateIP s nm now) = Inl err) \<longleftrightarrow> (\<exists>err. ?r = Inl err)"
    by (cases ?r) (auto simp: AllocateIP_def)
  also have "\<dots> \<longleftrightarrow> (\<forall>n \<in> set ?ns. \<forall>j \<in> scannedRange n. owned (ip_leases s) (IntToIP j))"
    by (rule allocateFrom_fails_iff [OF assms(1) np])
  also have "\<dots> \<longleftrightarrow> (\<forall>n \<in> set (networks s). \<not> IsPublic n \<longrightarrow>
                 (\<forall>j \<in> scannedRange n. owned (ip_leases s) (IntToIP j)))"
    unfolding set_getAvailableNetworks by blast
  finally show "(\<exists>err. fst (AllocateIP s nm now) = Inl err)
         \<longleftrightarrow> (\<forall>n \<in> set (networks s). \<not> IsPublic n \<longrightarrow>
                 (\<forall>j \<in> scannedRange n. owned (ip_leases s) (IntToIP j)))" .
  have "?r \<noteq> Inl ErrPanic" by (rule allocateFrom_no_panic [OF np])
  then show "fst (AllocateIP s nm now) \<noteq> Inl ErrPanic"
    by (cases ?r) (auto simp: AllocateIP_def)
qed

subsection \<open>What a successful allocation returns\<close>

lemma tryAllocateInNetwork_sound:
  assumes "tryAllocateInNetwork leases n nm now = Inr (a, leases')"
    and "distinct (map ip leases)"
  shows "(\<exists>j \<in> scannedRange n. a = IntToIP j) \<and> \<not> owned leases a
         \<and> tryReserve leases a nm now (ID n) = Some leases'"
proof (cases "CidrToRange (CIDR n)")
  case (Inl err)
  with assms(1) show ?thesis by (simp add: tryAllocateInNetwork_def)
next
  case (Inr r)
  obtain s e where r: "r = (s, e)" by (cases r)
  from assms(1) Inr r
  have "scanRange leases (usedIPs leases (ID n)) (ID n) nm now (s + 2) e = Inr (a, leases')"
    by (simp add: tryAllocateInNetwork_def)
  from scanRange_sound [OF this]
  obtain j where j: "s + 2 \<le> j" "j < e" "a = IntToIP j"
      "tryReserve leases a nm now (ID n) = Some leases'" by blast
  from j(1,2) Inr r have "j \<in> scannedRange n" by (simp add: scannedRange_def)
  with j(3,4) tryReserve_free_before [OF j(4) assms(2)] show ?thesis by blast
qed

lemma allocateFrom_sound:
  "allocateFrom leases ns nm now = Inr r
   \<Longrightarrow> \<exists>n \<in> set ns. tryAllocateInNetwork leases n nm now = Inr r"
  by (induction ns) (auto split: sum.splits if_splits)

lemma AllocateIP_sound:
  assumes "AllocateIP s nm now = (Inr a, s')" and "distinct (map ip (ip_leases s))"
  shows "\<exists>n \<in> set (networks s). \<not> IsPublic n
           \<and> (\<exists>j \<in> scannedRange n. a = IntToIP j)
           \<and> \<not> owned (ip_leases s) a
           \<and> (\<exists>l \<in> set (ip_leases s'). ip l = a \<and> instance_name l = Some nm
                  \<and> network_id l = ID n)
           \<and> (\<forall>l \<in> set (ip_leases s'). ip l = a \<longrightarrow> instance_name l = Some nm)
           \<and> filter (\<lambda>l. ip l \<noteq> a) (ip_leases s') = filter (\<lambda>l. ip l \<noteq> a) (ip_leases s)
           \<and> networks s' = networks s
           \<and> distinct (map ip (ip_leases s'))"
proof -
  let ?r = "allocateFrom (ip_leases s) (getAvailableNetworks s False) nm now"
  from assms(1) obtain leases' where r: "?r = Inr (a, leases')"
      and s': "s' = s\<lparr>ip_leases := leases'\<rparr>"
    by (cases ?r) (auto simp: AllocateIP_def)
  from allocateFrom_sound [OF r] obtain n where n: "n \<in> set (getAvailableNetworks s False)"
      and t: "tryAllocateInNetwork (ip_leases s) n nm now = Inr (a, leases')" by blast
  from n have n': "n \<in> set (networks s)" "\<not> IsPublic n"
    by (simp_all add: set_getAvailableNetworks)
  note snd = tryAllocateInNetwork_sound [OF t assms(2)]
  then have res: "tryReserve (ip_leases s) a nm now (ID n) = Some leases'" by simp
  have own: "\<exists>l \<in> set leases'. ip l = a \<and> instance_name l = Some nm \<and> network_id l = ID n"
    using tryReserve_owner_after [OF res] by blast
  have sole: "\<forall>l \<in> set leases'. ip l = a \<longrightarrow> instance_name l = Some nm"
    using tryReserve_sole_owner [OF res assms(2)] by blast
  have frame: "filter (\<lambda>l. ip l \<noteq> a) leases' = filter (\<lambda>l. ip l \<noteq> a) (ip_leases s)"
    by (rule tryReserve_frame [OF res])
  have dist: "distinct (map ip leases')" by (rule tryReserve_distinct [OF res assms(2)])
  from n' snd own sole frame dist s' show ?thesis by auto
qed

text \<open>
  When \<open>start + 2\<close> does not wrap around, the scanned addresses lie in the spec's
  interval \<open>[network + 2, broadcast)\<close>.
\<close>

lemma scannedRange_in_network:
  assumes "CIDR n = ParsedV4 a p" and "unat a + 2 < 2 ^ 32" and "j \<in> scannedRange n"
  shows "j \<in> usableAddresses n"
proof -
  from assms(1,3) have p: "p \<le> 32"
    by (auto simp: scannedRange_def CidrToRange_def split: if_splits)
  have ones: "(0xffffffff :: uint32) = - 1" by simp
  have x: "CIDRMask p XOR 0xffffffff = NOT (CIDRMask p)" unfolding ones by simp
  from assms(1,3) p x have j: "a + 2 \<le> j" "j < (a AND CIDRMask p) OR NOT (CIDRMask p)"
    by (simp_all add: scannedRange_def CidrToRange_def Let_def)
  have "unat (a + 2) = unat a + 2" using assms(2) by (simp add: unat_word_ariths)
  with j(1) have "unat a + 2 \<le> unat j" by (simp add: word_le_nat_alt)
  moreover have "unat (a AND CIDRMask p) \<le> unat a"
    using word_and_le2 [of a "CIDRMask p"] by (simp add: word_le_nat_alt)
  ultimately show ?thesis
    using j(2) assms(1) p
    by (simp add: usableAddresses_def networkAddress_def broadcastAddress_def
        word_less_nat_alt)
qed

text \<open>
  For a pool whose CIDR is written with its network address, below the last two
  addresses of the address space, the scan covers exactly the spec's usable addresses,
  and \<open>CidrToRange\<close> does not panic.
\<close>

lemma scannedRange_network_addressed:
  assumes "networkAddressed n"
  shows "scannedRange n = usableAddresses n"
proof (cases "CIDR n")
  case (ParsedV4 a w)
  with assms have w: "w \<le> 32" and na: "a AND CIDRMask w = a" and top: "unat a + 2 < 2 ^ 32"
    by (simp_all add: networkAddressed_def networkAddress_def)
  have ones: "(0xffffffff :: uint32) = - 1" by simp
  have x: "CIDRMask w XOR 0xffffffff = NOT (CIDRMask w)" unfolding ones by simp
  have r: "CidrToRange (ParsedV4 a w) = Inr (a, a OR NOT (CIDRMask w))"
    using w na x by (simp add: CidrToRange_def Let_def)
  have s: "unat (a + 2) = unat a + 2" using top by (simp add: unat_word_ariths)
  show ?thesis
    using ParsedV4 w na
    by (simp add: scannedRange_def r usableAddresses_def networkAddress_def
        broadcastAddress_def word_le_nat_alt word_less_nat_alt s)
next
  case (ParsedV6 w)
  with assms show ?thesis by (simp add: networkAddressed_def)
next
  case ParseError
  with assms show ?thesis by (simp add: networkAddressed_def)
qed

lemma networkAddressed_no_panic:
  "networkAddressed n \<Longrightarrow> CidrToRange (CIDR n) \<noteq> Inl ErrPanic"
  by (cases "CIDR n") (simp_all add: networkAddressed_def CidrToRange_def Let_def)

subsection \<open>AllocateIP on concrete stores\<close>

lemmas alloc_eval =
  AllocateIP_def tryAllocateInNetwork_def CidrToRange_def CIDRMask_def
  mask_eq_exp_minus_1 scanRange.simps usedIPs_def IntToIP_def ubtoa_def byteAt_def digit_def
  tryReserve_def existsGlobal_def claimable_def claimRow_def getAvailableNetworks_def

text \<open>
  C2. The pool \<open>255.255.255.254/31\<close> is private and the lease table is empty.
  \<open>CidrToRange\<close> gives \<open>start = 255.255.255.254\<close> and \<open>end = 255.255.255.255\<close>; the
  interval \<open>[network + 2, broadcast)\<close> of this network is empty, since \<open>network + 2\<close> is
  \<open>2 ^ 32\<close>. In the code \<open>startIP + 2\<close> is a \<open>uint32\<close> and wraps to 0, the scan starts at
  \<open>0.0.0.0\<close>, and \<open>AllocateIP\<close> succeeds with that address, which is owned by the
  instance afterwards.
\<close>

theorem AllocateIP_wraps_below_network:
  "AllocateIP topStore ''web1'' 0
     = (Inr ''0.0.0.0'',
        topStore\<lparr>ip_leases := [\<lparr>ip = ''0.0.0.0'', instance_name = Some ''web1'',
                                  allocated_at = Some 0, network_id = ''9''\<rparr>]\<rparr>)
   \<and> CidrToRange (CIDR top31) = Inr (0xFFFFFFFE, 0xFFFFFFFF)
   \<and> (0xFFFFFFFE :: uint32) + 2 = 0
   \<and> IntToIP 0 = ''0.0.0.0''
   \<and> unat (0xFFFFFFFF :: uint32) < unat (0xFFFFFFFE :: uint32) + 2"
  by (simp add: alloc_eval topStore_def top31_def)

text \<open>
  The claim C3 as stated fails on three stores. With the only pool \<open>10.0.0.0/29\<close> marked
  public and no lease, all six calls fail: \<open>AllocateIP\<close> only looks at private pools.
  With a private pool written \<open>10.0.0.3/29\<close> and \<open>10.0.0.5\<close>, \<open>10.0.0.6\<close> owned, the call
  fails although the usable address \<open>10.0.0.2\<close> is not owned: the scan starts two after
  the written address. With the private pool \<open>255.255.255.254/31\<close>, which has no usable
  address, the call succeeds.
\<close>

theorem AllocateIP_exhaustion_counterexample:
  "networks publicStore = [pool29\<lparr>IsPublic := True\<rparr>] \<and> ip_leases publicStore = []
   \<and> CIDR (pool29\<lparr>IsPublic := True\<rparr>) = ParsedV4 0x0A000000 29
   \<and> allocateSeq publicStore
        [(''a'', 1), (''b'', 2), (''c'', 3), (''d'', 4), (''e'', 5), (''f'', 6)]
      = [Inl ErrNoIPAvailable, Inl ErrNoIPAvailable, Inl ErrNoIPAvailable,
         Inl ErrNoIPAvailable, Inl ErrNoIPAvailable, Inl ErrNoIPAvailable]
   \<and> networks hostBitsStore = [hostBits29] \<and> \<not> IsPublic hostBits29
   \<and> fst (AllocateIP hostBitsStore ''web1'' 9) = Inl ErrNoIPAvailable
   \<and> 0x0A000002 \<in> usableAddresses hostBits29
   \<and> \<not> owned (ip_leases hostBitsStore) (IntToIP 0x0A000002)
   \<and> networks topStore = [top31] \<and> \<not> IsPublic top31
   \<and> usableAddresses top31 = {}
   \<and> fst (AllocateIP topStore ''web1'' 0) = Inr ''0.0.0.0''"
proof -
  have p: "networks publicStore = [pool29\<lparr>IsPublic := True\<rparr>] \<and> ip_leases publicStore = []
           \<and> CIDR (pool29\<lparr>IsPublic := True\<rparr>) = ParsedV4 0x0A000000 29"
    by (simp add: publicStore_def pool29_def)
  have ps: "allocateSeq publicStore
        [(''a'', 1), (''b'', 2), (''c'', 3), (''d'', 4), (''e'', 5), (''f'', 6)]
      = [Inl ErrNoIPAvailable, Inl ErrNoIPAvailable, Inl ErrNoIPAvailable,
         Inl ErrNoIPAvailable, Inl ErrNoIPAvailable, Inl ErrNoIPAvailable]"
    by (simp add: alloc_eval publicStore_def pool29_def)
  have h: "networks hostBitsStore = [hostBits29] \<and> \<not> IsPublic hostBits29"
    by (simp add: hostBitsStore_def hostBits29_def)
  have hf: "fst (AllocateIP hostBitsStore ''web1'' 9) = Inl ErrNoIPAvailable"
    by (simp add: alloc_eval hostBitsStore_def hostBits29_def)
  have hu: "0x0A000002 \<in> usableAddresses hostBits29"
    by (simp add: usableAddresses_def networkAddress_def broadcastAddress_def CIDRMask_def
        mask_eq_exp_minus_1 hostBits29_def)
  have ho: "\<not> owned (ip_leases hostBitsStore) (IntToIP 0x0A000002)"
    by (simp add: owned_def hostBitsStore_def IntToIP_def ubtoa_def byteAt_def digit_def)
  have t: "networks topStore = [top31] \<and> \<not> IsPublic top31"
    by (simp add: topStore_def top31_def)
  have tu: "usableAddresses top31 = {}"
    by (simp add: usableAddresses_def networkAddress_def broadcastAddress_def CIDRMask_def
        mask_eq_exp_minus_1 top31_def)
  have tf: "fst (AllocateIP topStore ''web1'' 0) = Inr ''0.0.0.0''"
    by (simp add: alloc_eval topStore_def top31_def)
  show ?thesis
    by (intro conjI p [THEN conjunct1] p [THEN conjunct2, THEN conjunct1]
        p [THEN conjunct2, THEN conjunct2] ps h [THEN conjunct1] h [THEN conjunct2]
        hf hu ho t [THEN conjunct1] t [THEN conjunct2] tu tf)
qed

text \<open>
  C3, as amended. In a store whose only network is \<open>10.0.0.0/29\<close>, private, and whose
  lease table is empty, six calls of \<open>AllocateIP\<close> one after the other (any instance names,
  any clock readings) yield \<open>10.0.0.2\<close>, \<open>10.0.0.3\<close>, \<open>10.0.0.4\<close>, \<open>10.0.0.5\<close>, \<open>10.0.0.6\<close> in
  this order, and the sixth fails with the error of an exhausted pool. In general, on a
  lease table whose \<open>ip\<close> column is a key and with every private pool an IPv4 CIDR written
  with its network address (below the last two addresses of the address space),
  \<open>AllocateIP\<close> fails exactly when, in every private pool, every address of
  \<open>[network + 2, broadcast)\<close> is owned; it then returns the exhausted-pool error and
  leaves the store as it was.
\<close>

theorem AllocateIP_sequence_and_exhaustion:
  "(networks s0 = [n] \<and> ip_leases s0 = [] \<and> CIDR n = ParsedV4 0x0A000000 29 \<and> \<not> IsPublic n
      \<longrightarrow> allocateSeq s0 [(n1, t1), (n2, t2), (n3, t3), (n4, t4), (n5, t5), (n6, t6)]
            = [Inr ''10.0.0.2'', Inr ''10.0.0.3'', Inr ''10.0.0.4'', Inr ''10.0.0.5'',
               Inr ''10.0.0.6'', Inl ErrNoIPAvailable])
   \<and> (distinct (map ip (ip_leases s))
       \<and> (\<forall>p \<in> set (networks s). \<not> IsPublic p \<longrightarrow> networkAddressed p) \<longrightarrow>
        ((\<exists>err. fst (AllocateIP s name now) = Inl err)
           \<longleftrightarrow> (\<forall>p \<in> set (networks s). \<not> IsPublic p \<longrightarrow>
                  (\<forall>j \<in> usableAddresses p. owned (ip_leases s) (IntToIP j))))
        \<and> ((\<exists>err. fst (AllocateIP s name now) = Inl err)
           \<longrightarrow> fst (AllocateIP s name now) = Inl ErrNoIPAvailable
               \<and> snd (AllocateIP s name now) = s))"
proof (intro conjI impI)
  assume "networks s0 = [n] \<and> ip_leases s0 = [] \<and> CIDR n = ParsedV4 0x0A000000 29 \<and> \<not> IsPublic n"
  then show "allocateSeq s0 [(n1, t1), (n2, t2), (n3, t3), (n4, t4), (n5, t5), (n6, t6)]
            = [Inr ''10.0.0.2'', Inr ''10.0.0.3'', Inr ''10.0.0.4'', Inr ''10.0.0.5'',
               Inr ''10.0.0.6'', Inl ErrNoIPAvailable]"
    by (simp add: alloc_eval)
next
  assume h: "distinct (map ip (ip_leases s))
       \<and> (\<forall>p \<in> set (networks s). \<not> IsPublic p \<longrightarrow> networkAddressed p)"
  then have d: "distinct (map ip (ip_leases s))"
    and na: "\<forall>p \<in> set (networks s). \<not> IsPublic p \<longrightarrow> networkAddressed p" by simp_all
  from na have np: "\<forall>p \<in> set (networks s). \<not> IsPublic p \<longrightarrow> CidrToRange (CIDR p) \<noteq> Inl ErrPanic"
    by (blast dest: networkAddressed_no_panic)
  from na have eq: "\<forall>p \<in> set (networks s). \<not> IsPublic p \<longrightarrow> scannedRange p = usableAddresses p"
    by (blast dest: scannedRange_network_addressed)
  have "(\<exists>err. fst (AllocateIP s name now) = Inl err)
           \<longleftrightarrow> (\<forall>p \<in> set (networks s). \<not> IsPublic p \<longrightarrow>
                  (\<forall>j \<in> scannedRange p. owned (ip_leases s) (IntToIP j)))"
    by (rule AllocateIP_fails_iff(1) [OF d np])
  also have "\<dots> \<longleftrightarrow> (\<forall>p \<in> set (networks s). \<not> IsPublic p \<longrightarrow>
                  (\<forall>j \<in> usableAddresses p. owned (ip_leases s) (IntToIP j)))"
    using eq by auto
  finally show "(\<exists>err. fst (AllocateIP s name now) = Inl err)
           \<longleftrightarrow> (\<forall>p \<in> set (networks s). \<not> IsPublic p \<longrightarrow>
                  (\<forall>j \<in> usableAddresses p. owned (ip_leases s) (IntToIP j)))" .
  {
    assume "\<exists>err. fst (AllocateIP s name now) = Inl err"
    then obtain err where e: "fst (AllocateIP s name now) = Inl err" by blast
    from AllocateIP_fails_iff(2) [OF d np, of name now] e have "err \<noteq> ErrPanic" by auto
    with AllocateIP_failure_keeps_store [OF e] e
    show "fst (AllocateIP s name now) = Inl ErrNoIPAvailable"
      and "snd (AllocateIP s name now) = s" by auto
  }
qed

theorem AllocateIP_sequence_and_exhaustion_witness:
  "networks emptyPool = [pool29] \<and> ip_leases emptyPool = []
   \<and> CIDR pool29 = ParsedV4 0x0A000000 29 \<and> \<not> IsPublic pool29
   \<and> allocateSeq emptyPool
         [(''a'', 1), (''b'', 2), (''c'', 3), (''d'', 4), (''e'', 5), (''f'', 6)]
       = [Inr ''10.0.0.2'', Inr ''10.0.0.3'', Inr ''10.0.0.4'', Inr ''10.0.0.5'',
          Inr ''10.0.0.6'', Inl ErrNoIPAvailable]
   \<and> distinct (map ip (ip_leases fullStore))
   \<and> networks fullStore = [pool29] \<and> networkAddressed pool29
   \<and> fst (AllocateIP fullStore ''web1'' 0) = Inl ErrNoIPAvailable
   \<and> snd (AllocateIP fullStore ''web1'' 0) = fullStore
   \<and> distinct (map ip (ip_leases twoLeases))
   \<and> networks twoLeases = [pool29]
   \<and> fst (AllocateIP twoLeases ''db1'' 7) = Inr ''10.0.0.3''
   \<and> 0x0A000003 \<in> usableAddresses pool29
   \<and> \<not> owned (ip_leases twoLeases) (IntToIP 0x0A000003)"
proof -
  have a: "networks emptyPool = [pool29] \<and> ip_leases emptyPool = []
           \<and> CIDR pool29 = ParsedV4 0x0A000000 29 \<and> \<not> IsPublic pool29"
    by (simp add: emptyPool_def pool29_def)
  note seq = AllocateIP_sequence_and_exhaustion [THEN conjunct1, THEN mp, OF a]
  have d: "distinct (map ip (ip_leases fullStore))"
    by (simp add: fullStore_def fullLeases_def)
  have nf: "networks fullStore = [pool29]" by (simp add: fullStore_def)
  have na: "networkAddressed pool29"
    by (simp add: networkAddressed_def networkAddress_def CIDRMask_def mask_eq_exp_minus_1
        pool29_def)
  from d nf na
  have h: "distinct (map ip (ip_leases fullStore))
           \<and> (\<forall>p \<in> set (networks fullStore). \<not> IsPublic p \<longrightarrow> networkAddressed p)"
    by simp
  have f: "fst (AllocateIP fullStore ''web1'' 0) = Inl ErrNoIPAvailable"
    by (simp add: alloc_eval fullStore_def fullLeases_def pool29_def)
  then have "\<exists>err. fst (AllocateIP fullStore ''web1'' 0) = Inl err" by simp
  note kept = AllocateIP_sequence_and_exhaustion [THEN conjunct2, THEN mp,
      OF h, THEN conjunct2, THEN mp, OF this, THEN conjunct2]
  have d2: "distinct (map ip (ip_leases twoLeases))" by (simp add: twoLeases_def)
  have n2: "networks twoLeases = [pool29]" by (simp add: twoLeases_def)
  have g: "fst (AllocateIP twoLeases ''db1'' 7) = Inr ''10.0.0.3''"
    by (simp add: alloc_eval twoLeases_def pool29_def)
  have u: "0x0A000003 \<in> usableAddresses pool29"
    by (simp add: usableAddresses_def networkAddress_def broadcastAddress_def CIDRMask_def
        mask_eq_exp_minus_1 pool29_def)
  have o: "\<not> owned (ip_leases twoLeases) (IntToIP 0x0A000003)"
    by (simp add: owned_def twoLeases_def IntToIP_def ubtoa_def byteAt_def digit_def)
  from a have a1: "networks emptyPool = [pool29]" and a2: "ip_leases emptyPool = []"
    and a3: "CIDR pool29 = ParsedV4 0x0A000000 29" and a4: "\<not> IsPublic pool29" by simp_all
  show ?thesis
    by (intro conjI a1 a2 a3 a4 seq d nf na f kept d2 n2 g u o)
qed

section \<open>Verified properties: event bus\<close>

text \<open>
  C9. \<open>Publish\<close> is defined on every bus and every event (it takes the default branch
  where a plain send would block). On a bus of capacity 1000 that holds fewer than 1000
  undelivered events the event is appended at the end of the queue; on one that holds
  1000 the bus is returned unchanged, the event is dropped. The bus never holds more
  than 1000 events.
\<close>

theorem Publish_appends_or_drops:
  "(busState bus \<and> length (buffer bus) < 1000 \<longrightarrow>
      chanSend bus evt \<noteq> WouldBlock
      \<and> buffer (Publish bus evt) = buffer bus @ [evt])
   \<and> (busState bus \<and> length (buffer bus) = 1000 \<longrightarrow>
      chanSend bus evt = WouldBlock
      \<and> Publish bus evt = bus)
   \<and> (busState bus \<longrightarrow> busState (Publish bus evt))"
  by (auto simp: Publish_def chanSend_def busState_def)

theorem Publish_appends_or_drops_witness:
  "busState GlobalBus \<and> length (buffer GlobalBus) < 1000
   \<and> buffer (Publish GlobalBus jobDone) = [jobDone]
   \<and> busState fullBus \<and> length (buffer fullBus) = 1000
   \<and> Publish fullBus jobDone = fullBus"
proof -
  have a: "busState GlobalBus \<and> length (buffer GlobalBus) < 1000"
    by (simp add: busState_def GlobalBus_def)
  have b: "busState fullBus \<and> length (buffer fullBus) = 1000"
    by (simp add: busState_def fullBus_def)
  have e: "buffer GlobalBus @ [jobDone] = [jobDone]" by (simp add: GlobalBus_def)
  note app = Publish_appends_or_drops [THEN conjunct1, THEN mp, OF a, THEN conjunct2]
  note drop = Publish_appends_or_drops [THEN conjunct2, THEN conjunct1, THEN mp, OF b,
      THEN conjunct2]
  have c: "buffer (Publish GlobalBus jobDone) = [jobDone]"
    using app [of jobDone] e by (rule trans)
  show ?thesis
    by (intro conjI a [THEN conjunct1] a [THEN conjunct2] c b [THEN conjunct1]
        b [THEN conjunct2] drop)
qed

section \<open>Verified properties: job store\<close>

text \<open>
  C8. \<open>RecoverStuckJobs\<close> keeps the rows in place. A job that has been \<open>IN_PROGRESS\<close> for
  longer than \<open>staleAfter\<close> becomes \<open>PENDING\<close> with \<open>attempt_count\<close> one higher and nothing
  else changed; every other job (in another status, or \<open>IN_PROGRESS\<close> for at most
  \<open>staleAfter\<close>) is unchanged. The number returned is the number of jobs reset.
\<close>

theorem RecoverStuckJobs_resets_only_stuck:
  "length (snd (RecoverStuckJobs jobs now staleAfter)) = length jobs
   \<and> fst (RecoverStuckJobs jobs now staleAfter)
       = Inr (length (filter (stuck now staleAfter) jobs))
   \<and> (\<forall>k < length jobs.
        (stuck now staleAfter (jobs ! k) \<longrightarrow>
           snd (RecoverStuckJobs jobs now staleAfter) ! k
             = (jobs ! k)\<lparr>job_status := PENDING,
                           job_attempt_count := job_attempt_count (jobs ! k) + 1\<rparr>)
        \<and> (\<not> stuck now staleAfter (jobs ! k) \<longrightarrow>
           snd (RecoverStuckJobs jobs now staleAfter) ! k = jobs ! k))
   \<and> (\<forall>j. stuck now staleAfter j
         \<longleftrightarrow> job_status j = IN_PROGRESS
             \<and> (\<exists>t. job_started_at j = Some t \<and> t + staleAfter < now))"
  by (auto simp: RecoverStuckJobs_def recoverRow_def stuck_def split: option.splits)

theorem RecoverStuckJobs_resets_only_stuck_witness:
  "stuck 1000 300 ([oldJob, youngJob, doneJob] ! 0)
   \<and> \<not> stuck 1000 300 ([oldJob, youngJob, doneJob] ! 1)
   \<and> \<not> stuck 1000 300 ([oldJob, youngJob, doneJob] ! 2)
   \<and> job_attempt_count oldJob = 0
   \<and> snd (RecoverStuckJobs [oldJob, youngJob, doneJob] 1000 300) ! 0
       = oldJob\<lparr>job_status := PENDING, job_attempt_count := 1\<rparr>
   \<and> snd (RecoverStuckJobs [oldJob, youngJob, doneJob] 1000 300) ! 1 = youngJob
   \<and> snd (RecoverStuckJobs [oldJob, youngJob, doneJob] 1000 300) ! 2 = doneJob"
proof -
  let ?js = "[oldJob, youngJob, doneJob]"
  have s0: "stuck 1000 300 (?js ! 0)" by (simp add: stuck_def oldJob_def)
  have s1: "\<not> stuck 1000 300 (?js ! 1)" by (simp add: stuck_def youngJob_def)
  have s2: "\<not> stuck 1000 300 (?js ! 2)" by (simp add: stuck_def doneJob_def)
  have a0: "job_attempt_count oldJob = 0" by (simp add: oldJob_def)
  note rows = RecoverStuckJobs_resets_only_stuck [of ?js 1000 300, THEN conjunct2,
      THEN conjunct2, THEN conjunct1, rule_format]
  have k0: "(0 :: nat) < length ?js" and k1: "(1 :: nat) < length ?js"
    and k2: "(2 :: nat) < length ?js" by simp_all
  have r0: "snd (RecoverStuckJobs ?js 1000 300) ! 0
            = (?js ! 0)\<lparr>job_status := PENDING,
                          job_attempt_count := job_attempt_count (?js ! 0) + 1\<rparr>"
    by (rule rows [OF k0, THEN conjunct1, THEN mp, OF s0])
  have r1: "snd (RecoverStuckJobs ?js 1000 300) ! 1 = ?js ! 1"
    by (rule rows [OF k1, THEN conjunct2, THEN mp, OF s1])
  have r2: "snd (RecoverStuckJobs ?js 1000 300) ! 2 = ?js ! 2"
    by (rule rows [OF k2, THEN conjunct2, THEN mp, OF s2])
  from r0 a0 have r0': "snd (RecoverStuckJobs ?js 1000 300) ! 0
       = oldJob\<lparr>job_status := PENDING, job_attempt_count := 1\<rparr>" by simp
  from r1 have r1': "snd (RecoverStuckJobs ?js 1000 300) ! 1 = youngJob" by simp
  from r2 have r2': "snd (RecoverStuckJobs ?js 1000 300) ! 2 = doneJob" by simp
  show ?thesis by (intro conjI s0 s1 s2 a0 r0' r1' r2')
qed

section \<open>Verified properties: create-instance endpoint\<close>

text \<open>
  C5. For a request that binds and whose quota check fails, the handler answers 409 and
  returns the server as it was: the job store is not written, whatever \<open>CreateJob\<close>
  does, and nothing is dispatched. For a request that binds, passes the quota check and
  whose job \<open>CreateJob\<close> persists without error, the handler answers 202 with a
  \<open>job_id\<close> that is the identifier of the job handed to \<open>CreateJob\<close>; the job store is
  the one \<open>CreateJob\<close> left and the identifier was dispatched.
\<close>

theorem postInstances_quota_then_job:
  "(bound = Some req \<and> CheckGlobalQuota d (reqCpu d req) (reqRam d req) = Some err \<longrightarrow>
      StatusCode (fst (postInstances d bound srv)) = 409
      \<and> snd (postInstances d bound srv) = srv)
   \<and> (bound = Some req \<and> CheckGlobalQuota d (reqCpu d req) (reqRam d req) = None
       \<and> fst (CreateJob d (newJob d req) (JobStore srv)) = None \<longrightarrow>
      StatusCode (fst (postInstances d bound srv)) = 202
      \<and> Body (fst (postInstances d bound srv))
          = [(''job_id'', Job_ID (newJob d req)), (''status'', ''accepted'')]
      \<and> JobStore (snd (postInstances d bound srv))
          = snd (CreateJob d (newJob d req) (JobStore srv))
      \<and> DispatchQueue (snd (postInstances d bound srv))
          = DispatchJob d (Job_ID (newJob d req)) (DispatchQueue srv))"
proof (intro conjI impI)
  assume "bound = Some req \<and> CheckGlobalQuota d (reqCpu d req) (reqRam d req) = Some err"
  then show "StatusCode (fst (postInstances d bound srv)) = 409"
    and "snd (postInstances d bound srv) = srv"
    by (simp_all add: postInstances_def)
next
  assume a: "bound = Some req \<and> CheckGlobalQuota d (reqCpu d req) (reqRam d req) = None
       \<and> fst (CreateJob d (newJob d req) (JobStore srv)) = None"
  obtain res store' where c: "CreateJob d (newJob d req) (JobStore srv) = (res, store')"
    by (cases "CreateJob d (newJob d req) (JobStore srv)")
  with a have res: "res = None" by simp
  have id: "Job_ID (newJob d req) = NewUUID d" by (simp add: newJob_def)
  from a c res id show "StatusCode (fst (postInstances d bound srv)) = 202"
    and "Body (fst (postInstances d bound srv))
          = [(''job_id'', Job_ID (newJob d req)), (''status'', ''accepted'')]"
    and "JobStore (snd (postInstances d bound srv))
          = snd (CreateJob d (newJob d req) (JobStore srv))"
    and "DispatchQueue (snd (postInstances d bound srv))
          = DispatchJob d (Job_ID (newJob d req)) (DispatchQueue srv)"
    by (simp_all add: postInstances_def Let_def)
qed

theorem postInstances_quota_then_job_witness:
  "CheckGlobalQuota listDeps (reqCpu listDeps bigRequest) (reqRam listDeps bigRequest)
     = Some ''cpu limit reached''
   \<and> StatusCode (fst (postInstances listDeps (Some bigRequest) idle)) = 409
   \<and> snd (postInstances listDeps (Some bigRequest) idle) = idle
   \<and> CheckGlobalQuota listDeps (reqCpu listDeps smallRequest) (reqRam listDeps smallRequest)
     = None
   \<and> fst (CreateJob listDeps (newJob listDeps smallRequest) (JobStore idle)) = None
   \<and> StatusCode (fst (postInstances listDeps (Some smallRequest) idle)) = 202
   \<and> Body (fst (postInstances listDeps (Some smallRequest) idle))
       = [(''job_id'', ''6f1c''), (''status'', ''accepted'')]
   \<and> JobStore (snd (postInstances listDeps (Some smallRequest) idle))
       = [newJob listDeps smallRequest]
   \<and> DispatchQueue (snd (postInstances listDeps (Some smallRequest) idle)) = [''6f1c'']"
proof -
  have q1: "CheckGlobalQuota listDeps (reqCpu listDeps bigRequest) (reqRam listDeps bigRequest)
              = Some ''cpu limit reached''"
    by (simp add: listDeps_def reqCpu_def reqRam_def bigRequest_def)
  have q2: "CheckGlobalQuota listDeps (reqCpu listDeps smallRequest)
              (reqRam listDeps smallRequest) = None"
    by (simp add: listDeps_def reqCpu_def reqRam_def smallRequest_def)
  have cj: "fst (CreateJob listDeps (newJob listDeps smallRequest) (JobStore idle)) = None"
    by (simp add: listDeps_def)
  have h1: "Some bigRequest = Some bigRequest
            \<and> CheckGlobalQuota listDeps (reqCpu listDeps bigRequest)
                 (reqRam listDeps bigRequest) = Some ''cpu limit reached''"
    using q1 by simp
  have h2: "Some smallRequest = Some smallRequest
            \<and> CheckGlobalQuota listDeps (reqCpu listDeps smallRequest)
                 (reqRam listDeps smallRequest) = None
            \<and> fst (CreateJob listDeps (newJob listDeps smallRequest) (JobStore idle)) = None"
    using q2 cj by simp
  note rejected = postInstances_quota_then_job [THEN conjunct1, THEN mp, OF h1]
  note accepted = postInstances_quota_then_job [THEN conjunct2, THEN mp, OF h2]
  have id: "Job_ID (newJob listDeps smallRequest) = ''6f1c''"
    by (simp add: newJob_def listDeps_def)
  have st: "snd (CreateJob listDeps (newJob listDeps smallRequest) (JobStore idle))
            = [newJob listDeps smallRequest]"
    by (simp add: listDeps_def idle_def)
  have dq: "DispatchJob listDeps ''6f1c'' (DispatchQueue idle) = [''6f1c'']"
    by (simp add: listDeps_def idle_def)
  have b: "Body (fst (postInstances listDeps (Some smallRequest) idle))
       = [(''job_id'', ''6f1c''), (''status'', ''accepted'')]"
    using accepted [THEN conjunct2, THEN conjunct1] id by simp
  have j: "JobStore (snd (postInstances listDeps (Some smallRequest) idle))
       = [newJob listDeps smallRequest]"
    using accepted [THEN conjunct2, THEN conjunct2, THEN conjunct1] st by (rule trans)
  have q: "DispatchQueue (snd (postInstances listDeps (Some smallRequest) idle)) = [''6f1c'']"
    using accepted [THEN conjunct2, THEN conjunct2, THEN conjunct2] id dq by simp
  show ?thesis
    by (intro conjI q1 rejected [THEN conjunct1] rejected [THEN conjunct2] q2 cj
        accepted [THEN conjunct1] b j q)
qed

section \<open>Verified properties: startup synchronisation\<close>

lemma GetInstance_never_ErrNoRows: "GetInstance rows name \<noteq> Inl ErrNoRows"
  by (simp add: GetInstance_def Get_def split: list.splits)

lemma UpdateLimits_names:
  "map Instance_Name (snd (UpdateLimits rows name limits)) = map Instance_Name rows"
  by (simp add: UpdateLimits_def comp_def)

lemma syncInstance_names:
  "map Instance_Name (snd (syncInstance toUpper lxd rows i)) = map Instance_Name rows"
proof (cases "GetInstance rows (Lxd_Name i)")
  case (Inl err)
  with GetInstance_never_ErrNoRows [of rows "Lxd_Name i"] have "err \<noteq> ErrNoRows" by auto
  with Inl show ?thesis by (simp add: syncInstance_def)
next
  case (Inr dbInstance)
  then show ?thesis
    by (cases "refreshedLimits toUpper lxd i (Instance_Limits dbInstance)")
       (simp_all add: syncInstance_def UpdateInstanceStatusAndLimits_def UpdateLimits_names)
qed

lemma syncLoop_names:
  "map Instance_Name (snd (syncLoop toUpper lxd rows is)) = map Instance_Name rows"
proof (induction "is" arbitrary: rows)
  case Nil
  then show ?case by simp
next
  case (Cons i rest)
  obtain p rows' where s: "syncInstance toUpper lxd rows i = (p, rows')"
    by (cases "syncInstance toUpper lxd rows i")
  then have n: "map Instance_Name rows' = map Instance_Name rows"
    using syncInstance_names [of toUpper lxd rows i] by simp
  show ?case
  proof (cases p)
    case None
    with s Cons.IH [of rows'] n show ?thesis by simp
  next
    case (Some e)
    with s n show ?thesis by simp
  qed
qed

text \<open>
  Whatever the provider reports, \<open>RunStartupSync\<close> leaves the store with the names it
  had, in the same order: no row is ever created.
\<close>

lemma RunStartupSync_imports_nothing:
  "map Instance_Name (snd (RunStartupSync toUpper rows lxd)) = map Instance_Name rows"
  by (cases "ListInstances lxd") (simp_all add: RunStartupSync_def syncLoop_names)

text \<open>
  C1. The provider reports one live instance, \<open>web1\<close>, and the instance store is empty.
  \<open>GetInstance\<close> answers with the error "instance not found: web1", which is not
  \<open>sql.ErrNoRows\<close>; \<open>RunStartupSync\<close> takes the branch that logs a failed query, and the
  store is still empty when it returns: no row is created for \<open>web1\<close>. This holds
  whatever \<open>strings.ToUpper\<close> computes.
\<close>

theorem RunStartupSync_skips_missing_instance:
  "ListInstances oneContainer = Inr [web1]
   \<and> GetInstance [] (Lxd_Name web1) = Inl (ErrInstanceNotFound ''web1'')
   \<and> RunStartupSync toUpper [] oneContainer = (None, [])"
  by (simp add: RunStartupSync_def syncInstance_def GetInstance_def Get_def oneContainer_def
      web1_def)

end
